theory Spec2Isabelle
  imports Main
begin

section \<open>The configuration tree of config.go\<close>

text \<open>
  The structs of config.go, field by field in declaration order. Two structs declare an
  \<open>Address\<close> and two a \<open>Password\<close>: those record fields carry the struct's name as a
  prefix, every other field keeps its Go name. Go's \<open>int\<close> is taken as the 64-bit integer
  of the platforms the backend is built for. The optional \<open>*ConfigAuth\<close> is an option:
  \<open>None\<close> is the nil pointer.
\<close>

record ConfigPaths =
  Databases :: string
  Results :: string
  Temporary :: string
  Mmseqs :: string

record ConfigRedis =
  Network :: string
  Redis_Address :: string
  Redis_Password :: string
  DbIndex :: int

record ConfigMailTemplate =
  Subject :: string
  Body :: string

record ConfigMailTemplates =
  Success :: ConfigMailTemplate
  Timeout :: ConfigMailTemplate
  Error :: ConfigMailTemplate

record ConfigMail =
  Transport :: string
  Sender :: string
  Templates :: ConfigMailTemplates

record ConfigAuth =
  Username :: string
  Auth_Password :: string

record ConfigServer =
  Server_Address :: string
  PathPrefix :: string
  DbManagment :: bool
  CORS :: bool
  Auth :: "ConfigAuth option"

record ConfigRoot =
  Server :: ConfigServer
  Paths :: ConfigPaths
  Redis :: ConfigRedis
  Mail :: ConfigMail
  Verbose :: bool

section \<open>Errors\<close>

text \<open>
  The errors of config.go are values of Go's \<open>error\<close> interface: \<open>errors.New(msg)\<close>,
  which carries its message and nothing else, and the \<open>*strconv.NumError\<close> that
  \<open>strconv.ParseInt\<close>, \<open>ParseUint\<close> and \<open>ParseBool\<close> return (the function's name,
  the input string and the cause).
\<close>

datatype numerr = ErrSyntax | ErrRange

datatype error = ErrorString string | NumError string string numerr

section \<open>The reflection view\<close>

text \<open>
  \<open>setNodeValue\<close> walks the tree through package reflect. A \<open>reflect.Value\<close> is
  modelled by the value it stands for together with what reflection reads from its
  type: the kind, and for a struct the fields in declaration order, each with its Go
  identifier and the value of its \<open>json\<close> struct tag (\<open>Tag.Get("json")\<close>, the empty
  string where the tag is missing). A pointer carries its element type, from which
  \<open>reflect.New\<close> makes the zero value. \<open>VOther\<close> stands for a value of any other kind
  (float, slice, map, ...).

  Every struct of config.go has exported fields only, so each \<open>reflect.Value\<close> reached
  from the \<open>*ConfigRoot\<close> is valid and settable: the guard of line 206
  (\<open>IsValid\<close>, \<open>CanSet\<close>) never fires and has no branch in the model.
\<close>

datatype ikind = KInt | KInt8 | KInt16 | KInt32 | KInt64

datatype ukind = KUint | KUint8 | KUint16 | KUint32 | KUint64

datatype rtype =
    TBool
  | TInt ikind
  | TUint ukind
  | TString
  | TStruct "tfield list"
  | TPtr rtype
  | TOther
and tfield = TField string string rtype

datatype val =
    VBool bool
  | VInt ikind int
  | VUint ukind nat
  | VString string
  | VStruct "field list"
  | VPtr rtype "val option"
  | VOther
and field = StructField string string val

fun fieldName :: "field \<Rightarrow> string" where
  "fieldName (StructField name tag v) = name"

fun fieldTag :: "field \<Rightarrow> string" where
  "fieldTag (StructField name tag v) = tag"

fun fieldValue :: "field \<Rightarrow> val" where
  "fieldValue (StructField name tag v) = v"

fun setFieldValue :: "field \<Rightarrow> val \<Rightarrow> field" where
  "setFieldValue (StructField name tag v) v' = StructField name tag v'"

text \<open>The zero value of a type: what \<open>reflect.New(t)\<close> points to.\<close>

fun zero :: "rtype \<Rightarrow> val"
  and zeroField :: "tfield \<Rightarrow> field"
  and zeroFields :: "tfield list \<Rightarrow> field list" where
  "zero TBool = VBool False"
| "zero (TInt k) = VInt k 0"
| "zero (TUint k) = VUint k 0"
| "zero TString = VString []"
| "zero (TStruct fs) = VStruct (zeroFields fs)"
| "zero (TPtr t) = VPtr t None"
| "zero TOther = VOther"
| "zeroField (TField name tag t) = StructField name tag (zero t)"
| "zeroFields [] = []"
| "zeroFields (f # fs) = zeroField f # zeroFields fs"

text \<open>Bit widths of the integer kinds (\<open>int\<close> and \<open>uint\<close> are 64 bits wide).\<close>

fun ibits :: "ikind \<Rightarrow> nat" where
  "ibits KInt = 64"
| "ibits KInt8 = 8"
| "ibits KInt16 = 16"
| "ibits KInt32 = 32"
| "ibits KInt64 = 64"

fun ubits :: "ukind \<Rightarrow> nat" where
  "ubits KUint = 64"
| "ubits KUint8 = 8"
| "ubits KUint16 = 16"
| "ubits KUint32 = 32"
| "ubits KUint64 = 64"

text \<open>
  \<open>reflect.Value.SetInt(x int64)\<close> stores \<open>intN(x)\<close> for a field of kind \<open>IntN\<close>: the
  conversion keeps the low N bits, read as two's complement. \<open>SetUint\<close> keeps the low N
  bits likewise.
\<close>

definition SetInt :: "ikind \<Rightarrow> int \<Rightarrow> int" where
  "SetInt k x = (x + 2 ^ (ibits k - 1)) mod 2 ^ ibits k - 2 ^ (ibits k - 1)"

definition SetUint :: "ukind \<Rightarrow> nat \<Rightarrow> nat" where
  "SetUint k x = x mod 2 ^ ubits k"

text \<open>The reflection view of each struct: Go identifier, json tag, value.\<close>

definition reflect_ConfigPaths :: "ConfigPaths \<Rightarrow> val" where
  "reflect_ConfigPaths p = VStruct
     [StructField ''Databases'' ''databases'' (VString (Databases p)),
      StructField ''Results'' ''results'' (VString (Results p)),
      StructField ''Temporary'' ''temporary'' (VString (Temporary p)),
      StructField ''Mmseqs'' ''mmseqs'' (VString (Mmseqs p))]"

definition reflect_ConfigRedis :: "ConfigRedis \<Rightarrow> val" where
  "reflect_ConfigRedis r = VStruct
     [StructField ''Network'' ''network'' (VString (Network r)),
      StructField ''Address'' ''address'' (VString (Redis_Address r)),
      StructField ''Password'' ''password'' (VString (Redis_Password r)),
      StructField ''DbIndex'' ''index'' (VInt KInt (DbIndex r))]"

definition reflect_ConfigMailTemplate :: "ConfigMailTemplate \<Rightarrow> val" where
  "reflect_ConfigMailTemplate t = VStruct
     [StructField ''Subject'' ''subject'' (VString (Subject t)),
      StructField ''Body'' ''body'' (VString (Body t))]"

definition reflect_ConfigMailTemplates :: "ConfigMailTemplates \<Rightarrow> val" where
  "reflect_ConfigMailTemplates t = VStruct
     [StructField ''Success'' ''success'' (reflect_ConfigMailTemplate (Success t)),
      StructField ''Timeout'' ''timeout'' (reflect_ConfigMailTemplate (Timeout t)),
      StructField ''Error'' ''error'' (reflect_ConfigMailTemplate (Error t))]"

definition reflect_ConfigMail :: "ConfigMail \<Rightarrow> val" where
  "reflect_ConfigMail m = VStruct
     [StructField ''Transport'' ''type'' (VString (Transport m)),
      StructField ''Sender'' ''sender'' (VString (Sender m)),
      StructField ''Templates'' ''templates'' (reflect_ConfigMailTemplates (Templates m))]"

definition type_ConfigAuth :: rtype where
  "type_ConfigAuth = TStruct
     [TField ''Username'' ''username'' TString,
      TField ''Password'' ''password'' TString]"

definition reflect_ConfigAuth :: "ConfigAuth \<Rightarrow> val" where
  "reflect_ConfigAuth a = VStruct
     [StructField ''Username'' ''username'' (VString (Username a)),
      StructField ''Password'' ''password'' (VString (Auth_Password a))]"

definition reflect_ConfigServer :: "ConfigServer \<Rightarrow> val" where
  "reflect_ConfigServer s = VStruct
     [StructField ''Address'' ''address'' (VString (Server_Address s)),
      StructField ''PathPrefix'' ''pathprefix'' (VString (PathPrefix s)),
      StructField ''DbManagment'' ''dbmanagment'' (VBool (DbManagment s)),
      StructField ''CORS'' ''cors'' (VBool (CORS s)),
      StructField ''Auth'' ''auth'' (VPtr type_ConfigAuth (map_option reflect_ConfigAuth (Auth s)))]"

definition reflect_ConfigRoot :: "ConfigRoot \<Rightarrow> val" where
  "reflect_ConfigRoot c = VStruct
     [StructField ''Server'' ''server'' (reflect_ConfigServer (Server c)),
      StructField ''Paths'' ''paths'' (reflect_ConfigPaths (Paths c)),
      StructField ''Redis'' ''redis'' (reflect_ConfigRedis (Redis c)),
      StructField ''Mail'' ''mail'' (reflect_ConfigMail (Mail c)),
      StructField ''Verbose'' ''verbose'' (VBool (Verbose c))]"

section \<open>Library functions of Go that config.go calls\<close>

subsection \<open>Package strings\<close>

text \<open>
  Strings are byte sequences. \<open>strings.HasPrefix(s, prefix)\<close>,
  \<open>strings.TrimLeft(s, cutset)\<close> (drops every leading byte that is in the cutset; the
  cutsets of config.go are the single ASCII characters \<open>-\<close> and \<open>~\<close>) and
  \<open>strings.Split(s, sep)\<close> for a separator of one byte, the only kind config.go passes
  (\<open>.\<close>): the pieces between the separators, at least one piece, empty pieces kept.
\<close>

definition HasPrefix :: "string \<Rightarrow> string \<Rightarrow> bool" where
  "HasPrefix s prefix = (take (length prefix) s = prefix)"

definition TrimLeft :: "string \<Rightarrow> string \<Rightarrow> string" where
  "TrimLeft s cutset = dropWhile (\<lambda>c. c \<in> set cutset) s"

fun Split :: "string \<Rightarrow> char \<Rightarrow> string list" where
  "Split [] sep = [[]]"
| "Split (c # cs) sep =
     (if c = sep then [] # Split cs sep
      else (case Split cs sep of
              [] \<Rightarrow> [[c]]
            | w # ws \<Rightarrow> (c # w) # ws))"

subsection \<open>Package strconv\<close>

text \<open>
  \<open>strconv.ParseBool\<close> accepts exactly twelve spellings (its switch lists them) and
  returns a syntax error for every other string.
\<close>

definition ParseBool :: "string \<Rightarrow> error + bool" where
  "ParseBool str =
     (if str \<in> set [''1'', ''t'', ''T'', ''true'', ''TRUE'', ''True''] then Inr True
      else if str \<in> set [''0'', ''f'', ''F'', ''false'', ''FALSE'', ''False''] then Inr False
      else Inl (NumError ''ParseBool'' str ErrSyntax))"

text \<open>
  \<open>strconv.ParseUint(s, 10, bitSize)\<close>. The loop reads the bytes left to right in
  \<open>uint64\<close> arithmetic: a byte that is not a decimal digit is a syntax error (a letter is
  a digit of value at least 10, refused in base 10; an underscore is only read in base
  0); the checks \<open>n >= cutoff\<close> before the multiplication and \<open>n1 < n || n1 > maxVal\<close>
  after the addition are the range error. The error is raised at the first byte that
  shows it, so a string too long for the range and with a bad byte further right is a
  range error.
\<close>

definition isDigit :: "char \<Rightarrow> bool" where
  "isDigit c = (48 \<le> (of_char c :: nat) \<and> (of_char c :: nat) \<le> 57)"

definition digitVal :: "char \<Rightarrow> nat" where
  "digitVal c = of_char c - 48"

definition maxUint64 :: nat where
  "maxUint64 = 2 ^ 64 - 1"

fun parseUintLoop :: "nat \<Rightarrow> nat \<Rightarrow> string \<Rightarrow> numerr + nat" where
  "parseUintLoop maxVal n [] = Inr n"
| "parseUintLoop maxVal n (c # cs) =
     (if \<not> isDigit c then Inl ErrSyntax
      else if n \<ge> maxUint64 div 10 + 1 then Inl ErrRange
      else (let n10 = n * 10; n1 = (n10 + digitVal c) mod 2 ^ 64
            in if n1 < n10 \<or> n1 > maxVal then Inl ErrRange
               else parseUintLoop maxVal n1 cs))"

definition parseUint :: "string \<Rightarrow> nat \<Rightarrow> numerr + nat" where
  "parseUint s bitSize =
     (if s = [] then Inl ErrSyntax else parseUintLoop (2 ^ bitSize - 1) 0 s)"

definition ParseUint :: "string \<Rightarrow> nat \<Rightarrow> error + nat" where
  "ParseUint s bitSize =
     (case parseUint s bitSize of
        Inl e \<Rightarrow> Inl (NumError ''ParseUint'' s e)
      | Inr n \<Rightarrow> Inr n)"

text \<open>
  \<open>strconv.ParseInt(s, 10, bitSize)\<close>: one leading sign is picked off, the rest goes
  through the unsigned parser (which hands back \<open>maxVal\<close> with its range error), and the
  magnitude is checked against \<open>cutoff = 1 << (bitSize - 1)\<close>.
\<close>

definition ParseInt :: "string \<Rightarrow> nat \<Rightarrow> error + int" where
  "ParseInt s0 bitSize =
     (if s0 = [] then Inl (NumError ''ParseInt'' s0 ErrSyntax)
      else (let neg = (hd s0 = CHR ''-'');
                s = (if hd s0 = CHR ''+'' \<or> hd s0 = CHR ''-'' then tl s0 else s0);
                cutoff = 2 ^ (bitSize - 1)
            in case parseUint s bitSize of
                 Inl ErrSyntax \<Rightarrow> Inl (NumError ''ParseInt'' s0 ErrSyntax)
               | r \<Rightarrow>
                   (let un = (case r of Inr n \<Rightarrow> n | Inl _ \<Rightarrow> 2 ^ bitSize - 1)
                    in if \<not> neg \<and> un \<ge> cutoff then Inl (NumError ''ParseInt'' s0 ErrRange)
                       else if neg \<and> un > cutoff then Inl (NumError ''ParseInt'' s0 ErrRange)
                       else Inr (if neg then - int un else int un))))"

section \<open>The override engine\<close>

text \<open>
  A function that mutates the tree in place and returns an error is modelled as a
  function from the tree to the tree afterwards and the error (\<open>None\<close> is Go's
  \<open>nil\<close>): what an erroring call has already written stays written.
\<close>

text \<open>
  Lines 210 to 240, the switch on the kind of the leaf: a struct is refused, an integer
  is parsed with bit size 64 whatever the kind and stored with \<open>SetInt\<close> or
  \<open>SetUint\<close>, a boolean goes through \<open>ParseBool\<close>, a string is stored as it is, and
  every other kind (a pointer too) falls to the default branch.
\<close>

fun setLeaf :: "val \<Rightarrow> string \<Rightarrow> val \<times> error option" where
  "setLeaf (VStruct fs) value = (VStruct fs, Some (ErrorString ''Leaf node is a struct''))"
| "setLeaf (VInt k n) value =
     (case ParseInt value 64 of
        Inl err \<Rightarrow> (VInt k n, Some err)
      | Inr i \<Rightarrow> (VInt k (SetInt k i), None))"
| "setLeaf (VUint k n) value =
     (case ParseUint value 64 of
        Inl err \<Rightarrow> (VUint k n, Some err)
      | Inr i \<Rightarrow> (VUint k (SetUint k i), None))"
| "setLeaf (VBool b) value =
     (case ParseBool value of
        Inl err \<Rightarrow> (VBool b, Some err)
      | Inr b' \<Rightarrow> (VBool b', None))"
| "setLeaf (VString s) value = (VString value, None)"
| "setLeaf (VPtr t p) value = (VPtr t p, Some (ErrorString ''Leaf node type not implemented''))"
| "setLeaf VOther value = (VOther, Some (ErrorString ''Leaf node type not implemented''))"

text \<open>
  Lines 264 to 274, the loop over the fields: the index of the first field, in
  declaration order, whose json tag is neither empty nor \<open>-\<close> and equals the segment.
\<close>

fun findField :: "field list \<Rightarrow> string \<Rightarrow> nat option" where
  "findField [] seg = None"
| "findField (f # fs) seg =
     (if fieldTag f = [] \<or> fieldTag f = ''-'' then map_option Suc (findField fs seg)
      else if fieldTag f = seg then Some 0
      else map_option Suc (findField fs seg))"

text \<open>
  Lines 251 to 258: the value the walk goes on with. A nil pointer is first set to a
  new zero value of its element type (\<open>v.Set(reflect.New(t))\<close>), and a pointer is
  followed (\<open>v.Elem()\<close>). \<open>elemOf\<close> is that value, \<open>writeBack\<close> puts a new content
  where the walk found it: behind the pointer, which is not nil from then on, or in
  place.
\<close>

fun elemOf :: "val \<Rightarrow> val" where
  "elemOf (VPtr t None) = zero t"
| "elemOf (VPtr t (Some e)) = e"
| "elemOf v = v"

fun writeBack :: "val \<Rightarrow> val \<Rightarrow> val" where
  "writeBack (VPtr t p) e = VPtr t (Some e)"
| "writeBack v e = e"

text \<open>
  \<open>setNodeValue(node, path, value)\<close>. The flag \<open>ok\<close> is the outcome of the type
  assertion \<open>node.(reflect.Value)\<close>: false for the call of \<open>setParameter\<close>, whose node
  is the \<open>*ConfigRoot\<close> itself (the model holds the struct it points to, which is what
  \<open>reflect.ValueOf(node).Elem()\<close> gives), true for the recursive calls.
\<close>

fun setNodeValue :: "bool \<Rightarrow> val \<Rightarrow> string list \<Rightarrow> string \<Rightarrow> val \<times> error option" where
  "setNodeValue ok node [] value =
     (if ok then setLeaf node value
      else (node, Some (ErrorString ''Leaf node is not a value'')))"
| "setNodeValue ok node (seg # rest) value =
     (case elemOf node of
        VStruct fs \<Rightarrow>
          (case findField fs seg of
             None \<Rightarrow> (writeBack node (VStruct fs), Some (ErrorString ''Path not found in config''))
           | Some i \<Rightarrow>
               (case setNodeValue True (fieldValue (fs ! i)) rest value of
                  (f, err) \<Rightarrow> (writeBack node (VStruct (fs[i := setFieldValue (fs ! i) f])), err)))
      | v \<Rightarrow> (writeBack node v, Some (ErrorString ''Node is not a struct'')))"

definition setParameter :: "val \<Rightarrow> string \<Rightarrow> string \<Rightarrow> val \<times> error option" where
  "setParameter c key value = setNodeValue False c (Split key CHR ''.'') value"

text \<open>
  \<open>ReadParameters\<close>: the loop over the arguments with its two variables \<open>key\<close> and
  \<open>inParameter\<close>, then the check after the loop.
\<close>

fun ReadParametersLoop :: "val \<Rightarrow> string \<Rightarrow> bool \<Rightarrow> string list \<Rightarrow> val \<times> error option" where
  "ReadParametersLoop c key inParameter [] =
     (if inParameter then (c, Some (ErrorString ''Invalid Parameter String''))
      else (c, None))"
| "ReadParametersLoop c key inParameter (arg # args) =
     (if HasPrefix arg ''-'' then
        (if inParameter then (c, Some (ErrorString ''Invalid Parameter String''))
         else ReadParametersLoop c (TrimLeft arg ''-'') True args)
      else
        (if \<not> inParameter then (c, Some (ErrorString ''Invalid Parameter String''))
         else (case setParameter c key arg of
                 (c', Some err) \<Rightarrow> (c', Some err)
               | (c', None) \<Rightarrow> ReadParametersLoop c' key False args)))"

definition ReadParameters :: "val \<Rightarrow> string list \<Rightarrow> val \<times> error option" where
  "ReadParameters c args = ReadParametersLoop c [] False args"

section \<open>The loader\<close>

subsection \<open>Package path/filepath (Unix)\<close>

text \<open>
  \<open>filepath.Join(elem...)\<close> skips leading empty elements, joins the rest with the
  separator and returns the \<open>filepath.Clean\<close> of it (the empty string when every
  element is empty). \<open>Clean\<close> is modelled on the path's elements, the pieces between
  separators: empty elements and \<open>.\<close> are dropped, \<open>..\<close> removes the element
  before it when that is not itself \<open>..\<close>, is dropped at the root of a rooted path and
  is kept otherwise; the cleaned path of no elements is \<open>/\<close> when rooted and \<open>.\<close>
  when not. \<open>out\<close> is the output so far, last element first.
\<close>

fun stringsJoin :: "string list \<Rightarrow> string \<Rightarrow> string" where
  "stringsJoin [] sep = []"
| "stringsJoin [e] sep = e"
| "stringsJoin (e # es) sep = e @ sep @ stringsJoin es sep"

fun cleanElems :: "bool \<Rightarrow> string list \<Rightarrow> string list \<Rightarrow> string list" where
  "cleanElems rooted out [] = rev out"
| "cleanElems rooted out (e # es) =
     (if e = [] \<or> e = ''.'' then cleanElems rooted out es
      else if e = ''..'' then
        (case out of
           [] \<Rightarrow> cleanElems rooted (if rooted then [] else [''..'']) es
         | x # xs \<Rightarrow>
             (if x = ''..'' then cleanElems rooted (''..'' # out) es
              else cleanElems rooted xs es))
      else cleanElems rooted (e # out) es)"

definition Clean :: "string \<Rightarrow> string" where
  "Clean path =
     (if path = [] then ''.''
      else (let rooted = (hd path = CHR ''/'');
                out = stringsJoin (cleanElems rooted [] (Split path CHR ''/'')) ''/''
            in if rooted then CHR ''/'' # out
               else if out = [] then ''.'' else out))"

fun Join :: "string list \<Rightarrow> string" where
  "Join [] = []"
| "Join (e # es) = (if e = [] then Join es else Clean (stringsJoin (e # es) ''/''))"

subsection \<open>ReadConfig\<close>

text \<open>
  Lines 144 to 147, the body of the loop over the three path pointers.
\<close>

definition resolvePath :: "string \<Rightarrow> string \<Rightarrow> string" where
  "resolvePath relativeTo path =
     (if HasPrefix path ''~'' then Join [relativeTo, TrimLeft path ''~''] else path)"

text \<open>
  \<open>ReadConfig(r, relativeTo)\<close>. \<open>DecodeJsonAndValidate\<close> is declared in another file
  of the package: it is the parameter \<open>decode\<close>, which returns the tree it has filled
  and, when it fails, the message of its error (all that \<open>fmt.Errorf\<close> reads of it).
  The loop goes over the pointers to \<open>Databases\<close>, \<open>Results\<close> and \<open>Mmseqs\<close>, three
  different fields, in this order.
\<close>

definition ReadConfig ::
  "('r \<Rightarrow> ConfigRoot \<times> string option) \<Rightarrow> 'r \<Rightarrow> string \<Rightarrow> ConfigRoot \<times> error option" where
  "ReadConfig decode r relativeTo =
     (case decode r of
        (config, Some msg) \<Rightarrow>
          (config, Some (ErrorString (''Fatal error for config file: '' @ msg @ [CHR 0x0A])))
      | (config, None) \<Rightarrow>
          (let config1 = config\<lparr>Paths := (Paths config)
                           \<lparr>Databases := resolvePath relativeTo (Databases (Paths config))\<rparr>\<rparr>;
               config2 = config1\<lparr>Paths := (Paths config1)
                           \<lparr>Results := resolvePath relativeTo (Results (Paths config1))\<rparr>\<rparr>;
               config3 = config2\<lparr>Paths := (Paths config2)
                           \<lparr>Mmseqs := resolvePath relativeTo (Mmseqs (Paths config2))\<rparr>\<rparr>
           in (config3, None)))"

text \<open>
  The tree that \<open>defaultFileContent\<close> describes, as a decoder of JSON by struct tags
  fills it: the keys the document does not have (\<open>server.auth\<close>, \<open>paths.temporary\<close>)
  keep their zero values.
\<close>

definition defaultFileConfig :: ConfigRoot where
  "defaultFileConfig =
     \<lparr>Server = \<lparr>Server_Address = ''127.0.0.1:8081'', PathPrefix = ''/api/'',
                DbManagment = False, CORS = True, Auth = None\<rparr>,
      Paths = \<lparr>Databases = ''~databases'', Results = ''~jobs'', Temporary = [],
               Mmseqs = ''~mmseqs''\<rparr>,
      Redis = \<lparr>Network = ''tcp'', Redis_Address = ''localhost:6379'', Redis_Password = [],
               DbIndex = 0\<rparr>,
      Mail = \<lparr>Transport = ''null'', Sender = ''mail@example.org'',
              Templates = \<lparr>Success = \<lparr>Subject = ''Done -- %s'', Body = ''%s''\<rparr>,
                           Timeout = \<lparr>Subject = ''Timeout -- %s'', Body = ''%s''\<rparr>,
                           Error = \<lparr>Subject = ''Error -- %s'', Body = ''%s''\<rparr>\<rparr>\<rparr>,
      Verbose = True\<rparr>"

section \<open>Notions the properties are stated with\<close>

text \<open>
  The node a path leads to, read by the rule of the walk without writing: through a nil
  pointer it is the node of the zero value that the walk would allocate.
\<close>

fun nodeAt :: "val \<Rightarrow> string list \<Rightarrow> val option" where
  "nodeAt v [] = Some v"
| "nodeAt v (seg # rest) =
     (case elemOf v of
        VStruct fs \<Rightarrow>
          (case findField fs seg of
             None \<Rightarrow> None
           | Some i \<Rightarrow> nodeAt (fieldValue (fs ! i)) rest)
      | _ \<Rightarrow> None)"

text \<open>
  The tree with the node at a path replaced, every nil pointer on the way allocated.
\<close>

fun putAt :: "val \<Rightarrow> string list \<Rightarrow> val \<Rightarrow> val" where
  "putAt v [] x = x"
| "putAt v (seg # rest) x =
     (case elemOf v of
        VStruct fs \<Rightarrow>
          (case findField fs seg of
             None \<Rightarrow> writeBack v (VStruct fs)
           | Some i \<Rightarrow>
               writeBack v (VStruct (fs[i := setFieldValue (fs ! i) (putAt (fieldValue (fs ! i)) rest x)])))
      | e \<Rightarrow> writeBack v e)"

text \<open>The scalar leaves: text, boolean, signed and unsigned integer.\<close>

fun isScalar :: "val \<Rightarrow> bool" where
  "isScalar (VBool b) = True"
| "isScalar (VInt k n) = True"
| "isScalar (VUint k n) = True"
| "isScalar (VString s) = True"
| "isScalar v = False"

text \<open>
  The argument stream: a flag token begins with \<open>-\<close>; the stream alternates when it is
  flag, value, flag, value and so on to its end. \<open>pairedBefore\<close> are the overrides
  (path as written, value) that are paired before the first token that breaks the
  alternation, and \<open>applyOverrides\<close> applies overrides one after the other until one
  fails.
\<close>

definition isFlag :: "string \<Rightarrow> bool" where
  "isFlag arg = HasPrefix arg ''-''"

fun alternates :: "string list \<Rightarrow> bool" where
  "alternates [] = True"
| "alternates [a] = False"
| "alternates (f # v # rest) = (isFlag f \<and> \<not> isFlag v \<and> alternates rest)"

fun pairedBefore :: "string list \<Rightarrow> (string \<times> string) list" where
  "pairedBefore (f # v # rest) =
     (if isFlag f \<and> \<not> isFlag v then (TrimLeft f ''-'', v) # pairedBefore rest else [])"
| "pairedBefore args = []"

fun applyOverrides :: "val \<Rightarrow> (string \<times> string) list \<Rightarrow> val \<times> error option" where
  "applyOverrides c [] = (c, None)"
| "applyOverrides c ((key, value) # overrides) =
     (case setParameter c key value of
        (c', Some err) \<Rightarrow> (c', Some err)
      | (c', None) \<Rightarrow> applyOverrides c' overrides)"

text \<open>
  A leaf holds the value of an override when it is what the leaf switch of
  \<open>setNodeValue\<close> stores for that string: the string itself in a text leaf, the
  boolean it spells, the integer it denotes cut to the width of the leaf.
\<close>

fun holdsValue :: "val \<Rightarrow> string \<Rightarrow> bool" where
  "holdsValue (VString s) value = (s = value)"
| "holdsValue (VBool b) value = (ParseBool value = Inr b)"
| "holdsValue (VInt k n) value =
     (case ParseInt value 64 of Inl err \<Rightarrow> False | Inr i \<Rightarrow> n = SetInt k i)"
| "holdsValue (VUint k n) value =
     (case ParseUint value 64 of Inl err \<Rightarrow> False | Inr u \<Rightarrow> n = SetUint k u)"
| "holdsValue v value = False"

text \<open>\<open>strings.Contains(s, substr)\<close>, to say what a message mentions.\<close>

fun Contains :: "string \<Rightarrow> string \<Rightarrow> bool" where
  "Contains [] substr = (substr = [])"
| "Contains (c # cs) substr = (HasPrefix (c # cs) substr \<or> Contains cs substr)"

text \<open>
  A spelling of a boolean that ignores case, as the specification words it: the
  string, with its ASCII capitals lowered, is one of the six canonical forms.
\<close>

definition toLower :: "char \<Rightarrow> char" where
  "toLower c =
     (case map_of (zip ''ABCDEFGHIJKLMNOPQRSTUVWXYZ'' ''abcdefghijklmnopqrstuvwxyz'') c of
        None \<Rightarrow> c
      | Some l \<Rightarrow> l)"

definition boolSpellingIgnoringCase :: "string \<Rightarrow> bool" where
  "boolSpellingIgnoringCase s =
     (map toLower s \<in> set [''true'', ''false'', ''1'', ''0'', ''t'', ''f''])"



section \<open>The scan of a struct's fields\<close>

text \<open>
  What \<open>findField\<close> returns, and that writing a field's value leaves the scan as it was.
\<close>

lemma findField_lt: "findField fs seg = Some i \<Longrightarrow> i < length fs"
  by (induction fs arbitrary: i) (auto split: if_splits)

lemma findField_tag:
  "findField fs seg = Some i \<Longrightarrow> fieldTag (fs ! i) = seg \<and> seg \<noteq> [] \<and> seg \<noteq> ''-''"
  by (induction fs arbitrary: i) (auto split: if_splits)

lemma findField_first:
  "findField fs seg = Some i \<Longrightarrow> j < i \<Longrightarrow> fieldTag (fs ! j) \<noteq> seg"
proof (induction fs arbitrary: i j)
  case Nil
  then show ?case by simp
next
  case (Cons f fs)
  then show ?case
    by (cases j) (auto split: if_splits dest: findField_tag)
qed

lemma findField_None_iff:
  "findField fs seg = None \<longleftrightarrow> (seg = [] \<or> seg = ''-'' \<or> seg \<notin> fieldTag ` set fs)"
  by (induction fs) auto

lemma findField_Some_iff:
  "findField fs seg = Some i \<longleftrightarrow>
   i < length fs \<and> fieldTag (fs ! i) = seg \<and> seg \<noteq> [] \<and> seg \<noteq> ''-'' \<and>
   (\<forall>j<i. fieldTag (fs ! j) \<noteq> seg)"
proof
  assume "findField fs seg = Some i"
  then show "i < length fs \<and> fieldTag (fs ! i) = seg \<and> seg \<noteq> [] \<and> seg \<noteq> ''-'' \<and>
      (\<forall>j<i. fieldTag (fs ! j) \<noteq> seg)"
    using findField_lt findField_tag findField_first by blast
next
  assume r: "i < length fs \<and> fieldTag (fs ! i) = seg \<and> seg \<noteq> [] \<and> seg \<noteq> ''-'' \<and>
      (\<forall>j<i. fieldTag (fs ! j) \<noteq> seg)"
  then have "seg \<in> fieldTag ` set fs" by (metis imageI nth_mem)
  with r have "findField fs seg \<noteq> None" by (simp add: findField_None_iff)
  then obtain k where k: "findField fs seg = Some k" by blast
  have "k = i"
  proof (rule ccontr)
    assume "k \<noteq> i"
    then consider "k < i" | "i < k" by arith
    then show False
    proof cases
      case 1
      with r findField_tag [OF k] show False by blast
    next
      case 2
      with r findField_first [OF k 2] show False by blast
    qed
  qed
  with k show "findField fs seg = Some i" by simp
qed

lemma findField_tags_cong:
  "map fieldTag fs' = map fieldTag fs \<Longrightarrow> findField fs' seg = findField fs seg"
proof (induction fs arbitrary: fs')
  case Nil
  then show ?case by simp
next
  case (Cons f fs)
  from Cons.prems obtain g gs where fs': "fs' = g # gs"
    and g: "fieldTag g = fieldTag f" and gs: "map fieldTag gs = map fieldTag fs"
    by (cases fs') auto
  from Cons.IH [OF gs] have "findField gs seg = findField fs seg" .
  with fs' g show ?case by simp
qed

lemma fieldTag_setFieldValue [simp]: "fieldTag (setFieldValue f v) = fieldTag f"
  by (cases f) simp

lemma fieldValue_setFieldValue [simp]: "fieldValue (setFieldValue f v) = v"
  by (cases f) simp

lemma setFieldValue_twice [simp]: "setFieldValue (setFieldValue f a) b = setFieldValue f b"
  by (cases f) simp

lemma findField_update [simp]:
  "findField (fs[i := setFieldValue (fs ! i) v]) seg = findField fs seg"
proof (cases "i < length fs")
  case True
  then show ?thesis
    by (intro findField_tags_cong) (simp add: map_update list_update_same_conv)
next
  case False
  then show ?thesis by (simp add: list_update_beyond)
qed

section \<open>The walk and the node a path leads to\<close>

text \<open>
  \<open>setNodeValue\<close> in terms of \<open>nodeAt\<close> and \<open>putAt\<close>: where the path leads to a node, the leaf
  switch runs on that node and its result is put back there; where it leads nowhere, the
  call fails and only allocates.
\<close>

lemma elemOf_writeBack_struct [simp]: "elemOf (writeBack v (VStruct fs)) = VStruct fs"
  by (cases v) simp_all

lemma writeBack_writeBack [simp]:
  "writeBack (writeBack v (VStruct fs)) b = writeBack v b"
  by (cases v) simp_all

lemma walk_reaches:
  "nodeAt v path = Some l \<Longrightarrow> ok \<or> path \<noteq> [] \<Longrightarrow>
   setNodeValue ok v path x = (putAt v path (fst (setLeaf l x)), snd (setLeaf l x))"
proof (induction path arbitrary: v ok)
  case Nil
  then show ?case by simp
next
  case (Cons seg rest)
  show ?case
  proof (cases "elemOf v")
    case (VStruct fs)
    show ?thesis
    proof (cases "findField fs seg")
      case None
      with VStruct Cons.prems show ?thesis by simp
    next
      case (Some i)
      with VStruct Cons.prems have "nodeAt (fieldValue (fs ! i)) rest = Some l" by simp
      from Cons.IH [OF this, of True] VStruct Some show ?thesis
        by simp
    qed
  qed (use Cons.prems in simp_all)
qed

lemma walk_misses:
  "nodeAt v path = None \<Longrightarrow>
   fst (setNodeValue ok v path x) = putAt v path y \<and>
   (snd (setNodeValue ok v path x) = Some (ErrorString ''Path not found in config'') \<or>
    snd (setNodeValue ok v path x) = Some (ErrorString ''Node is not a struct''))"
proof (induction path arbitrary: v ok)
  case Nil
  then show ?case by simp
next
  case (Cons seg rest)
  show ?case
  proof (cases "elemOf v")
    case (VStruct fs)
    show ?thesis
    proof (cases "findField fs seg")
      case None
      with VStruct show ?thesis by simp
    next
      case (Some i)
      with VStruct Cons.prems have "nodeAt (fieldValue (fs ! i)) rest = None" by simp
      from Cons.IH [OF this, of True] VStruct Some show ?thesis
        by (auto split: prod.splits)
    qed
  qed (use Cons.prems in simp_all)
qed

lemma walk_prefix:
  "nodeAt c p = Some n \<Longrightarrow> ok \<or> p \<noteq> [] \<Longrightarrow>
   nodeAt (fst (setNodeValue ok c (p @ rest) x)) p = Some (fst (setNodeValue True n rest x)) \<and>
   snd (setNodeValue ok c (p @ rest) x) = snd (setNodeValue True n rest x)"
proof (induction p arbitrary: c ok)
  case Nil
  then show ?case by simp
next
  case (Cons seg p)
  show ?case
  proof (cases "elemOf c")
    case (VStruct fs)
    show ?thesis
    proof (cases "findField fs seg")
      case None
      with VStruct Cons.prems show ?thesis by simp
    next
      case (Some i)
      with VStruct Cons.prems have n: "nodeAt (fieldValue (fs ! i)) p = Some n" by simp
      have i: "i < length fs" using Some by (rule findField_lt)
      from Cons.IH [OF n, of True] VStruct Some i show ?thesis
        by (auto split: prod.splits)
    qed
  qed (use Cons.prems in simp_all)
qed

lemma nodeAt_putAt:
  "nodeAt v path = Some l \<Longrightarrow> nodeAt (putAt v path y) path = Some y"
proof (induction path arbitrary: v)
  case Nil
  then show ?case by simp
next
  case (Cons seg rest)
  show ?case
  proof (cases "elemOf v")
    case (VStruct fs)
    show ?thesis
    proof (cases "findField fs seg")
      case None
      with VStruct Cons.prems show ?thesis by simp
    next
      case (Some i)
      with VStruct Cons.prems have n: "nodeAt (fieldValue (fs ! i)) rest = Some l" by simp
      have i: "i < length fs" using Some by (rule findField_lt)
      from Cons.IH [OF n] VStruct Some i show ?thesis
        by simp
    qed
  qed (use Cons.prems in simp_all)
qed

lemma putAt_putAt:
  "nodeAt v path = Some l \<Longrightarrow> putAt (putAt v path y) path z = putAt v path z"
proof (induction path arbitrary: v)
  case Nil
  then show ?case by simp
next
  case (Cons seg rest)
  show ?case
  proof (cases "elemOf v")
    case (VStruct fs)
    show ?thesis
    proof (cases "findField fs seg")
      case None
      with VStruct Cons.prems show ?thesis by simp
    next
      case (Some i)
      with VStruct Cons.prems have n: "nodeAt (fieldValue (fs ! i)) rest = Some l" by simp
      have i: "i < length fs" using Some by (rule findField_lt)
      from Cons.IH [OF n] VStruct Some i show ?thesis
        by simp
    qed
  qed (use Cons.prems in simp_all)
qed

section \<open>The decimal parsers\<close>






















section \<open>The errors of an override\<close>

text \<open>
  The errors \<open>setNodeValue\<close> can return; the error of the argument syntax is not one of them.
\<close>

lemma ParseInt_error: "ParseInt s b = Inl e \<Longrightarrow> \<exists>k. e = NumError ''ParseInt'' s k"
  by (auto simp add: ParseInt_def Let_def split: if_splits sum.splits numerr.splits)

lemma ParseUint_error: "ParseUint s b = Inl e \<Longrightarrow> \<exists>k. e = NumError ''ParseUint'' s k"
  by (auto simp add: ParseUint_def split: sum.splits)

lemma ParseBool_error: "ParseBool s = Inl e \<Longrightarrow> e = NumError ''ParseBool'' s ErrSyntax"
  by (auto simp add: ParseBool_def split: if_splits)

lemma setLeaf_fail_unchanged: "snd (setLeaf l x) = Some e \<Longrightarrow> fst (setLeaf l x) = l"
  by (cases l) (auto split: sum.splits)

lemma setLeaf_error:
  "snd (setLeaf l x) = Some e \<Longrightarrow>
   e = ErrorString ''Leaf node is a struct'' \<or> e = ErrorString ''Leaf node type not implemented'' \<or>
   (\<exists>f k. e = NumError f x k)"
  by (cases l) (auto split: sum.splits dest: ParseInt_error ParseUint_error ParseBool_error)

lemma setNodeValue_error:
  assumes "snd (setNodeValue ok v p x) = Some e"
  shows "e \<in> set [ErrorString ''Leaf node is not a value'', ErrorString ''Leaf node is a struct'',
           ErrorString ''Leaf node type not implemented'', ErrorString ''Node is not a struct'',
           ErrorString ''Path not found in config''] \<or> (\<exists>f k. e = NumError f x k)"
proof (cases "ok \<or> p \<noteq> []")
  case False
  with assms show ?thesis by simp
next
  case True
  show ?thesis
  proof (cases "nodeAt v p")
    case None
    from walk_misses [OF None, of ok x undefined] assms show ?thesis by auto
  next
    case (Some l)
    from walk_reaches [OF Some True, of x] assms have "snd (setLeaf l x) = Some e" by simp
    from setLeaf_error [OF this] show ?thesis by auto
  qed
qed

lemma setParameter_not_syntax_error:
  "snd (setParameter c key x) \<noteq> Some (ErrorString ''Invalid Parameter String'')"
proof
  assume "snd (setParameter c key x) = Some (ErrorString ''Invalid Parameter String'')"
  then have "snd (setNodeValue False c (Split key CHR ''.'') x) = Some (ErrorString ''Invalid Parameter String'')"
    by (simp add: setParameter_def)
  from setNodeValue_error [OF this] show False by simp
qed

section \<open>What a failing override leaves in place\<close>

text \<open>
  A failing override changes no scalar leaf: it can only allocate nil pointers on its way.
\<close>

lemma isScalar_elemOf: "isScalar l \<Longrightarrow> elemOf l = l"
  by (cases l) simp_all

lemma not_scalar_writeBack_struct [simp]: "\<not> isScalar (writeBack v (VStruct fs))"
  by (cases v) simp_all

lemma elemOf_struct_not_scalar: "elemOf v = VStruct fs \<Longrightarrow> \<not> isScalar v"
  by (cases v) auto

lemma writeBack_elemOf_scalar_iff:
  "(writeBack v (elemOf v) = l) = (v = l)" if "isScalar l"
proof (cases v)
  case (VPtr t p)
  with that show ?thesis by (cases l) auto
qed (simp_all)

lemma elemOf_writeBack_elemOf [simp]: "elemOf (writeBack v (elemOf v)) = elemOf v"
proof (cases v)
  case (VPtr t p)
  then show ?thesis by (cases p) simp_all
qed (simp_all)

lemma nodeAt_writeBack_elemOf:
  "isScalar l \<Longrightarrow> (nodeAt (writeBack v (elemOf v)) q = Some l) = (nodeAt v q = Some l)"
  by (cases q) (simp_all add: writeBack_elemOf_scalar_iff)

lemma putAt_keeps_scalars:
  "nodeAt v p = None \<or> nodeAt v p = Some y \<Longrightarrow> isScalar l \<Longrightarrow>
   (nodeAt (putAt v p y) q = Some l) = (nodeAt v q = Some l)"
proof (induction p arbitrary: v q)
  case Nil
  then show ?case by simp
next
  case (Cons seg rest)
  show ?case
  proof (cases "\<exists>fs i. elemOf v = VStruct fs \<and> findField fs seg = Some i")
    case False
    then have "putAt v (seg # rest) y = writeBack v (elemOf v)"
      by (cases "elemOf v") (simp_all split: option.splits)
    with Cons.prems(2) show ?thesis
      by (simp only: nodeAt_writeBack_elemOf)
  next
    case True
    then obtain fs i where st: "elemOf v = VStruct fs" and fi: "findField fs seg = Some i"
      by blast
    have i: "i < length fs" using fi by (rule findField_lt)
    from Cons.prems(1) st fi
    have P: "nodeAt (fieldValue (fs ! i)) rest = None \<or> nodeAt (fieldValue (fs ! i)) rest = Some y"
      by simp
    note IH = Cons.IH [OF P Cons.prems(2)]
    show ?thesis
    proof (cases q)
      case Nil
      have "\<not> isScalar v" using st by (rule elemOf_struct_not_scalar)
      with Nil st fi Cons.prems(2) show ?thesis
        by auto
    next
      case (Cons s qs)
      show ?thesis
      proof (cases "findField fs s")
        case None
        with st fi Cons show ?thesis by simp
      next
        case (Some j)
        have j: "j < length fs" using Some by (rule findField_lt)
        show ?thesis
        proof (cases "j = i")
          case True
          with st fi Some Cons i IH [of qs] show ?thesis
            by simp
        next
          case False
          with st fi Some Cons i j show ?thesis
            by simp
        qed
      qed
    qed
  qed
qed

lemma failing_override_keeps_scalars:
  assumes "snd (setNodeValue ok v p x) = Some e" and "isScalar l"
  shows "(nodeAt (fst (setNodeValue ok v p x)) q = Some l) = (nodeAt v q = Some l)"
proof (cases "ok \<or> p \<noteq> []")
  case False
  then show ?thesis by simp
next
  case True
  show ?thesis
  proof (cases "nodeAt v p")
    case None
    from walk_misses [OF None, of ok x undefined] putAt_keeps_scalars [of v p undefined l q] None assms(2)
    show ?thesis by simp
  next
    case (Some l0)
    from walk_reaches [OF Some True, of x] assms(1)
    have "fst (setNodeValue ok v p x) = putAt v p l0"
      by (simp add: setLeaf_fail_unchanged)
    with putAt_keeps_scalars [of v p l0 l q] Some assms(2) show ?thesis by simp
  qed
qed

section \<open>What a successful override leaves in place\<close>

text \<open>
  A successful override writes the leaf at its path and no scalar leaf at another path.
\<close>

lemma nodeAt_scalar_Cons: "isScalar v \<Longrightarrow> nodeAt v (s # qs) = None"
  by (cases v) simp_all

lemma putAt_other_scalar:
  "nodeAt c p = Some lp \<Longrightarrow> isScalar lp \<Longrightarrow> isScalar x \<Longrightarrow> isScalar l \<Longrightarrow> q \<noteq> p \<Longrightarrow>
   (nodeAt (putAt c p x) q = Some l) = (nodeAt c q = Some l)"
proof (induction p arbitrary: c q)
  case Nil
  then obtain s qs where q: "q = s # qs" by (cases q) auto
  from Nil have c: "c = lp" by simp
  from Nil.prems(3) have a: "nodeAt x (s # qs) = None" by (rule nodeAt_scalar_Cons)
  from Nil.prems(2) have b: "nodeAt lp (s # qs) = None" by (rule nodeAt_scalar_Cons)
  show ?case unfolding q c putAt.simps a b by simp
next
  case (Cons seg rest)
  from Cons.prems(1) obtain fs where st: "elemOf c = VStruct fs"
    by (cases "elemOf c") simp_all
  with Cons.prems(1) obtain i where fi: "findField fs seg = Some i"
    by (cases "findField fs seg") simp_all
  with st Cons.prems(1) have n: "nodeAt (fieldValue (fs ! i)) rest = Some lp" by simp
  have i: "i < length fs" using fi by (rule findField_lt)
  show ?case
  proof (cases q)
    case Nil
    have "\<not> isScalar c" using st by (rule elemOf_struct_not_scalar)
    with Nil st fi Cons.prems(4) show ?thesis by auto
  next
    case q: (Cons s qs)
    show ?thesis
    proof (cases "findField fs s")
      case None
      with st fi q show ?thesis by simp
    next
      case (Some j)
      have j: "j < length fs" using Some by (rule findField_lt)
      show ?thesis
      proof (cases "j = i")
        case True
        with findField_tag [OF Some] findField_tag [OF fi] have "s = seg" by simp
        with q Cons.prems(5) have "qs \<noteq> rest" by simp
        from Cons.IH [OF n Cons.prems(2) Cons.prems(3) Cons.prems(4) this] True st fi Some q i
        show ?thesis by simp
      next
        case False
        with st fi Some q i j show ?thesis by simp
      qed
    qed
  qed
qed

lemma setLeaf_success_scalar:
  "snd (setLeaf l x) = None \<Longrightarrow>
   isScalar l \<and> isScalar (fst (setLeaf l x)) \<and> holdsValue (fst (setLeaf l x)) x"
  by (cases l) (auto split: sum.splits)

lemma successful_override_reaches:
  assumes "snd (setNodeValue ok c p x) = None"
  obtains l where "nodeAt c p = Some l" and "snd (setLeaf l x) = None"
    and "fst (setNodeValue ok c p x) = putAt c p (fst (setLeaf l x))"
proof -
  have okp: "ok \<or> p \<noteq> []"
  proof (rule ccontr)
    assume "\<not> (ok \<or> p \<noteq> [])"
    with assms show False by simp
  qed
  show ?thesis
  proof (cases "nodeAt c p")
    case None
    from walk_misses [OF None, of ok x undefined] assms show ?thesis by auto
  next
    case (Some l)
    from walk_reaches [OF Some okp, of x] assms Some show ?thesis
      by (intro that [of l]) simp_all
  qed
qed

lemma successful_override_holds:
  assumes "snd (setNodeValue ok c p x) = None"
  shows "\<exists>l. nodeAt (fst (setNodeValue ok c p x)) p = Some l \<and> holdsValue l x \<and> isScalar l"
proof -
  from assms obtain l where l: "nodeAt c p = Some l" and s: "snd (setLeaf l x) = None"
    and f: "fst (setNodeValue ok c p x) = putAt c p (fst (setLeaf l x))"
    by (rule successful_override_reaches)
  from nodeAt_putAt [OF l] f setLeaf_success_scalar [OF s] show ?thesis by simp
qed

lemma successful_override_other_path:
  assumes "snd (setNodeValue ok c p x) = None" and "isScalar l" and "q \<noteq> p"
  shows "(nodeAt (fst (setNodeValue ok c p x)) q = Some l) = (nodeAt c q = Some l)"
proof -
  from assms(1) obtain lp where l: "nodeAt c p = Some lp" and s: "snd (setLeaf lp x) = None"
    and f: "fst (setNodeValue ok c p x) = putAt c p (fst (setLeaf lp x))"
    by (rule successful_override_reaches)
  from setLeaf_success_scalar [OF s] have "isScalar lp" "isScalar (fst (setLeaf lp x))"
    by simp_all
  from putAt_other_scalar [OF l this assms(2) assms(3)] f show ?thesis by simp
qed

lemma setLeaf_after_setLeaf:
  "snd (setLeaf l a) = None \<Longrightarrow> snd (setLeaf (fst (setLeaf l a)) b) = None \<Longrightarrow>
   setLeaf (fst (setLeaf l a)) b = setLeaf l b"
  by (cases l) (auto split: sum.splits)

lemma override_after_override:
  assumes a: "snd (setNodeValue ok v p a) = None"
    and b: "snd (setNodeValue ok (fst (setNodeValue ok v p a)) p b) = None"
  shows "setNodeValue ok (fst (setNodeValue ok v p a)) p b = setNodeValue ok v p b"
proof -
  have okp: "ok \<or> p \<noteq> []"
  proof (rule ccontr)
    assume "\<not> (ok \<or> p \<noteq> [])"
    with a show False by simp
  qed
  obtain l where l: "nodeAt v p = Some l"
  proof (cases "nodeAt v p")
    case None
    from walk_misses [OF None, of ok a undefined] a show ?thesis by auto
  next
    case (Some l)
    then show ?thesis by (rule that)
  qed
  let ?l1 = "fst (setLeaf l a)"
  from walk_reaches [OF l okp, of a]
  have first: "setNodeValue ok v p a = (putAt v p ?l1, snd (setLeaf l a))" .
  with a have sa: "snd (setLeaf l a) = None" by simp
  have l1: "nodeAt (putAt v p ?l1) p = Some ?l1"
    using l by (rule nodeAt_putAt)
  from walk_reaches [OF l1 okp, of b] first
  have second: "setNodeValue ok (fst (setNodeValue ok v p a)) p b =
      (putAt v p (fst (setLeaf ?l1 b)), snd (setLeaf ?l1 b))"
    by (simp add: putAt_putAt [OF l])
  with b have sb: "snd (setLeaf ?l1 b) = None" by simp
  from setLeaf_after_setLeaf [OF sa sb] second walk_reaches [OF l okp, of b]
  show ?thesis by simp
qed

section \<open>The argument loop\<close>

text \<open>
  The loop of \<open>ReadParameters\<close> as pairing the tokens and applying the pairs in order.
\<close>

lemma ReadParametersLoop_scan:
  "ReadParametersLoop c k False args =
     (case applyOverrides c (pairedBefore args) of
        (c', Some e) \<Rightarrow> (c', Some e)
      | (c', None) \<Rightarrow>
          (c', if alternates args then None else Some (ErrorString ''Invalid Parameter String'')))"
proof (induction args arbitrary: c k rule: alternates.induct)
  case 1
  show ?case by simp
next
  case (2 a)
  show ?case by (simp add: isFlag_def)
next
  case (3 f v rest)
  show ?case
  proof (cases "isFlag f \<and> \<not> isFlag v")
    case False
    then show ?thesis by (auto simp add: isFlag_def)
  next
    case True
    obtain c' r where s: "setParameter c (TrimLeft f ''-'') v = (c', r)"
      by (cases "setParameter c (TrimLeft f ''-'') v")
    show ?thesis
    proof (cases r)
      case None
      with True s "3.IH" [of c' "TrimLeft f ''-''"] show ?thesis
        by (simp add: isFlag_def)
    next
      case (Some e)
      with True s show ?thesis by (simp add: isFlag_def)
    qed
  qed
qed

lemma applyOverrides_append:
  "applyOverrides c xs = (c1, None) \<Longrightarrow> applyOverrides c (xs @ ys) = applyOverrides c1 ys"
proof (induction xs arbitrary: c)
  case Nil
  then show ?case by simp
next
  case (Cons o1 xs)
  obtain key v where o1: "o1 = (key, v)" by (cases o1)
  obtain c' r where s: "setParameter c key v = (c', r)" by (cases "setParameter c key v")
  from Cons.prems o1 s have r: "r = None" by (cases r) simp_all
  with Cons.prems o1 s have "applyOverrides c' xs = (c1, None)" by simp
  from Cons.IH [OF this] o1 s r show ?case by simp
qed

lemma applyOverrides_append_success:
  "applyOverrides c (xs @ ys) = (c', None) \<Longrightarrow>
   \<exists>c1. applyOverrides c xs = (c1, None) \<and> applyOverrides c1 ys = (c', None)"
proof (induction xs arbitrary: c)
  case Nil
  then show ?case by simp
next
  case (Cons o1 xs)
  obtain key x where o1: "o1 = (key, x)" by (cases o1)
  obtain c1 r where s: "setParameter c key x = (c1, r)" by (cases "setParameter c key x")
  from Cons.prems o1 s have r: "r = None" by (cases r) simp_all
  with Cons.prems o1 s have "applyOverrides c1 (xs @ ys) = (c', None)" by simp
  from Cons.IH [OF this] o1 s r show ?case by simp
qed

lemma applyOverrides_other_paths:
  "applyOverrides c os = (c', None) \<Longrightarrow>
   list_all (\<lambda>(k, x). Split k CHR ''.'' \<noteq> q) os \<Longrightarrow> isScalar l \<Longrightarrow>
   (nodeAt c' q = Some l) = (nodeAt c q = Some l)"
proof (induction os arbitrary: c)
  case Nil
  then show ?case by simp
next
  case (Cons o1 os)
  obtain key x where o1: "o1 = (key, x)" by (cases o1)
  obtain c1 r where s: "setParameter c key x = (c1, r)" by (cases "setParameter c key x")
  from Cons.prems(1) o1 s have r: "r = None" by (cases r) simp_all
  with Cons.prems(1) o1 s have a: "applyOverrides c1 os = (c', None)" by simp
  from Cons.prems(2) o1 have ne: "q \<noteq> Split key CHR ''.''" and rest: "list_all (\<lambda>(k, x). Split k CHR ''.'' \<noteq> q) os"
    by auto
  from s r have "snd (setNodeValue False c (Split key CHR ''.'') x) = None"
    and "c1 = fst (setNodeValue False c (Split key CHR ''.'') x)"
    by (simp_all add: setParameter_def)
  with successful_override_other_path [OF _ Cons.prems(3) ne, of False c x]
  have "(nodeAt c1 q = Some l) = (nodeAt c q = Some l)" by simp
  with Cons.IH [OF a rest Cons.prems(3)] show ?case by simp
qed

lemma alternates_append: "alternates pre \<Longrightarrow> alternates (pre @ rest) = alternates rest"
  by (induction pre rule: alternates.induct) simp_all

lemma pairedBefore_append:
  "alternates pre \<Longrightarrow> pairedBefore (pre @ rest) = pairedBefore pre @ pairedBefore rest"
  by (induction pre rule: alternates.induct) simp_all

lemma ReadParameters_success:
  "ReadParameters c args = (c1, None) \<longleftrightarrow>
   alternates args \<and> applyOverrides c (pairedBefore args) = (c1, None)"
  by (auto simp add: ReadParameters_def ReadParametersLoop_scan [of c "[]" args]
      split: prod.splits option.splits if_splits)

lemma ReadParameters_append:
  assumes "ReadParameters c pre = (c1, None)"
  shows "ReadParameters c (pre @ rest) = ReadParameters c1 rest"
proof -
  from assms have a: "alternates pre" and o: "applyOverrides c (pairedBefore pre) = (c1, None)"
    by (simp_all add: ReadParameters_success)
  show ?thesis
    by (simp add: ReadParameters_def ReadParametersLoop_scan [of _ "[]"]
        alternates_append [OF a] pairedBefore_append [OF a] applyOverrides_append [OF o])
qed

lemma last_override_of_a_path_holds:
  assumes r: "ReadParameters c (pre @ f # v # post) = (c', None)"
    and pre: "alternates pre" and f: "isFlag f" and v: "\<not> isFlag v"
    and others: "list_all (\<lambda>(k, x). Split k CHR ''.'' \<noteq> Split (TrimLeft f ''-'') CHR ''.'')
        (pairedBefore post)"
  shows "\<exists>l. nodeAt c' (Split (TrimLeft f ''-'') CHR ''.'') = Some l \<and> holdsValue l v"
proof -
  let ?p = "Split (TrimLeft f ''-'') CHR ''.''"
  from f v have pb: "pairedBefore (pre @ f # v # post) =
      pairedBefore pre @ (TrimLeft f ''-'', v) # pairedBefore post"
    by (simp add: pairedBefore_append [OF pre])
  from r have "applyOverrides c (pairedBefore (pre @ f # v # post)) = (c', None)"
    by (simp add: ReadParameters_success)
  with pb have "applyOverrides c (pairedBefore pre @ (TrimLeft f ''-'', v) # pairedBefore post) =
      (c', None)"
    by simp
  from applyOverrides_append_success [OF this] obtain c1
    where a: "applyOverrides c1 ((TrimLeft f ''-'', v) # pairedBefore post) = (c', None)"
    by blast
  obtain c2 e where s: "setParameter c1 (TrimLeft f ''-'') v = (c2, e)"
    by (cases "setParameter c1 (TrimLeft f ''-'') v")
  from a s have e: "e = None" by (cases e) simp_all
  with a s have post: "applyOverrides c2 (pairedBefore post) = (c', None)" by simp
  from s e have "snd (setNodeValue False c1 ?p v) = None"
    and c2: "c2 = fst (setNodeValue False c1 ?p v)"
    by (simp_all add: setParameter_def)
  from successful_override_holds [OF this(1)] c2 obtain l
    where l: "nodeAt c2 ?p = Some l" "holdsValue l v" "isScalar l"
    by blast
  from applyOverrides_other_paths [OF post others l(3)] l(1) have "nodeAt c' ?p = Some l"
    by simp
  with l(2) show ?thesis by blast
qed

section \<open>The claims\<close>

lemmas reflect_defs = reflect_ConfigRoot_def reflect_ConfigServer_def reflect_ConfigPaths_def
  reflect_ConfigRedis_def reflect_ConfigMail_def reflect_ConfigMailTemplates_def
  reflect_ConfigMailTemplate_def reflect_ConfigAuth_def type_ConfigAuth_def

text \<open>
  C1 as the claim states it fails on \<open>-server.nonexistent x\<close>: the error is the
  constant \<open>errors.New("Path not found in config")\<close>, whose message mentions neither
  the path \<open>server.nonexistent\<close> nor the segment \<open>nonexistent\<close>, and it is the very
  same error for another path that fails at another segment.
\<close>

theorem path_not_found_names_no_path:
  "snd (ReadParameters (reflect_ConfigRoot defaultFileConfig) [''-server.nonexistent'', ''x'']) =
     Some (ErrorString ''Path not found in config'') \<and>
   \<not> Contains ''Path not found in config'' ''nonexistent'' \<and>
   \<not> Contains ''Path not found in config'' ''server.nonexistent'' \<and>
   snd (ReadParameters (reflect_ConfigRoot defaultFileConfig) [''-nosuch.a.b'', ''y'']) =
     snd (ReadParameters (reflect_ConfigRoot defaultFileConfig) [''-server.nonexistent'', ''x''])"
  by (simp add: ReadParameters_def setParameter_def HasPrefix_def TrimLeft_def
      reflect_ConfigRoot_def reflect_ConfigServer_def)

text \<open>
  C1, amended. At a node whose value is a struct (directly or behind a pointer), the
  scan finds the first field in declaration order whose json tag equals the next
  segment, byte for byte, the tag being neither empty nor \<open>-\<close>; the walk goes on into
  that field with the remaining segments and returns what that call returns. When no
  field has the segment as its tag, the call fails with the fixed error
  \<open>Path not found in config\<close>, which names neither the path nor the segment, and the
  struct is as it was. On every \<open>ConfigRoot\<close>, an unknown key, the Go identifier of a
  field in place of its key, and a key in other letter case are all not found.
\<close>

theorem field_scan_first_match:
  "(findField fs seg = Some i) =
     (i < length fs \<and> fieldTag (fs ! i) = seg \<and> seg \<noteq> [] \<and> seg \<noteq> ''-'' \<and>
      (\<forall>j<i. fieldTag (fs ! j) \<noteq> seg)) \<and>
   (findField fs seg = None) = (seg = [] \<or> seg = ''-'' \<or> seg \<notin> fieldTag ` set fs) \<and>
   (elemOf node = VStruct fs \<longrightarrow> findField fs seg = Some i \<longrightarrow>
      setNodeValue ok node (seg # rest) value =
        (writeBack node (VStruct
           (fs[i := setFieldValue (fs ! i) (fst (setNodeValue True (fieldValue (fs ! i)) rest value))])),
         snd (setNodeValue True (fieldValue (fs ! i)) rest value))) \<and>
   (elemOf node = VStruct fs \<longrightarrow> findField fs seg = None \<longrightarrow>
      setNodeValue ok node (seg # rest) value =
        (writeBack node (VStruct fs), Some (ErrorString ''Path not found in config''))) \<and>
   (\<not> isFlag value \<longrightarrow>
      ReadParameters (reflect_ConfigRoot r) [''-server.nonexistent'', value] =
        (reflect_ConfigRoot r, Some (ErrorString ''Path not found in config'')) \<and>
      ReadParameters (reflect_ConfigRoot r) [''-server.PathPrefix'', value] =
        (reflect_ConfigRoot r, Some (ErrorString ''Path not found in config'')) \<and>
      ReadParameters (reflect_ConfigRoot r) [''-server.Address'', value] =
        (reflect_ConfigRoot r, Some (ErrorString ''Path not found in config'')) \<and>
      ReadParameters (reflect_ConfigRoot r) [''-Server.address'', value] =
        (reflect_ConfigRoot r, Some (ErrorString ''Path not found in config'')) \<and>
      ReadParameters (reflect_ConfigRoot r) [''-server.address'', value] =
        (reflect_ConfigRoot (r\<lparr>Server := (Server r)\<lparr>Server_Address := value\<rparr>\<rparr>), None))"
proof (intro conjI impI)
  show "(findField fs seg = Some i) =
     (i < length fs \<and> fieldTag (fs ! i) = seg \<and> seg \<noteq> [] \<and> seg \<noteq> ''-'' \<and>
      (\<forall>j<i. fieldTag (fs ! j) \<noteq> seg))"
    by (rule findField_Some_iff)
  show "(findField fs seg = None) = (seg = [] \<or> seg = ''-'' \<or> seg \<notin> fieldTag ` set fs)"
    by (rule findField_None_iff)
next
  assume "elemOf node = VStruct fs" and "findField fs seg = Some i"
  then show "setNodeValue ok node (seg # rest) value =
        (writeBack node (VStruct
           (fs[i := setFieldValue (fs ! i) (fst (setNodeValue True (fieldValue (fs ! i)) rest value))])),
         snd (setNodeValue True (fieldValue (fs ! i)) rest value))"
    by (simp split: prod.splits)
next
  assume "elemOf node = VStruct fs" and "findField fs seg = None"
  then show "setNodeValue ok node (seg # rest) value =
        (writeBack node (VStruct fs), Some (ErrorString ''Path not found in config''))"
    by simp
next
  assume v: "\<not> isFlag value"
  then show "ReadParameters (reflect_ConfigRoot r) [''-server.nonexistent'', value] =
        (reflect_ConfigRoot r, Some (ErrorString ''Path not found in config''))"
    by (simp add: ReadParameters_def setParameter_def reflect_defs isFlag_def HasPrefix_def
        TrimLeft_def)
  from v show "ReadParameters (reflect_ConfigRoot r) [''-server.PathPrefix'', value] =
        (reflect_ConfigRoot r, Some (ErrorString ''Path not found in config''))"
    by (simp add: ReadParameters_def setParameter_def reflect_defs isFlag_def HasPrefix_def
        TrimLeft_def)
  from v show "ReadParameters (reflect_ConfigRoot r) [''-server.Address'', value] =
        (reflect_ConfigRoot r, Some (ErrorString ''Path not found in config''))"
    by (simp add: ReadParameters_def setParameter_def reflect_defs isFlag_def HasPrefix_def
        TrimLeft_def)
  from v show "ReadParameters (reflect_ConfigRoot r) [''-Server.address'', value] =
        (reflect_ConfigRoot r, Some (ErrorString ''Path not found in config''))"
    by (simp add: ReadParameters_def setParameter_def reflect_defs isFlag_def HasPrefix_def
        TrimLeft_def)
  from v show "ReadParameters (reflect_ConfigRoot r) [''-server.address'', value] =
        (reflect_ConfigRoot (r\<lparr>Server := (Server r)\<lparr>Server_Address := value\<rparr>\<rparr>), None)"
    by (simp add: ReadParameters_def setParameter_def reflect_defs isFlag_def HasPrefix_def
        TrimLeft_def)
qed

theorem field_scan_first_match_witness:
  "findField [StructField ''A'' ''k'' (VBool False), StructField ''B'' [] VOther,
      StructField ''C'' ''x'' (VString ''one''), StructField ''D'' ''x'' (VString ''two'')] ''x'' =
     Some 2 \<and>
   setNodeValue True (VStruct [StructField ''A'' ''k'' (VBool False), StructField ''B'' [] VOther,
      StructField ''C'' ''x'' (VString ''one''), StructField ''D'' ''x'' (VString ''two'')])
      [''x''] ''new'' =
     (VStruct [StructField ''A'' ''k'' (VBool False), StructField ''B'' [] VOther,
        StructField ''C'' ''x'' (VString ''new''), StructField ''D'' ''x'' (VString ''two'')], None) \<and>
   setNodeValue True (VStruct [StructField ''A'' ''k'' (VBool False), StructField ''B'' [] VOther,
      StructField ''C'' ''x'' (VString ''one''), StructField ''D'' ''x'' (VString ''two'')])
      [''K''] ''new'' =
     (VStruct [StructField ''A'' ''k'' (VBool False), StructField ''B'' [] VOther,
        StructField ''C'' ''x'' (VString ''one''), StructField ''D'' ''x'' (VString ''two'')],
      Some (ErrorString ''Path not found in config'')) \<and>
   ReadParameters (reflect_ConfigRoot defaultFileConfig) [''-server.Address'', ''h:1''] =
     (reflect_ConfigRoot defaultFileConfig, Some (ErrorString ''Path not found in config''))"
proof -
  let ?fs = "[StructField ''A'' ''k'' (VBool False), StructField ''B'' [] VOther,
      StructField ''C'' ''x'' (VString ''one''), StructField ''D'' ''x'' (VString ''two'')]"
  have e: "elemOf (VStruct ?fs) = VStruct ?fs"
    by simp
  have h: "(2::nat) < length ?fs \<and> fieldTag (?fs ! 2) = ''x'' \<and> ''x'' \<noteq> [] \<and> ''x'' \<noteq> ''-'' \<and>
      (\<forall>j<2. fieldTag (?fs ! j) \<noteq> ''x'')"
    by (simp add: less_Suc_eq numeral_2_eq_2)
  have k: "''K'' \<noteq> [] \<and> ''K'' \<noteq> ''-'' \<and> ''K'' \<notin> fieldTag ` set ?fs"
    by simp
  have nf: "\<not> isFlag ''h:1''"
    by (simp add: isFlag_def HasPrefix_def)
  have f2: "findField ?fs ''x'' = Some 2"
    using field_scan_first_match [of ?fs "''x''" 2] h by blast
  have fK: "findField ?fs ''K'' = None"
    using field_scan_first_match [of ?fs "''K''"] k by blast
  from field_scan_first_match [of ?fs "''x''" 2 "VStruct ?fs" True "[]" "''new''"] e f2
  have "setNodeValue True (VStruct ?fs) [''x''] ''new'' =
        (writeBack (VStruct ?fs) (VStruct
           (?fs[2 := setFieldValue (?fs ! 2) (fst (setNodeValue True (fieldValue (?fs ! 2)) [] ''new''))])),
         snd (setNodeValue True (fieldValue (?fs ! 2)) [] ''new''))"
    by blast
  then have s: "setNodeValue True (VStruct ?fs) [''x''] ''new'' =
     (VStruct [StructField ''A'' ''k'' (VBool False), StructField ''B'' [] VOther,
        StructField ''C'' ''x'' (VString ''new''), StructField ''D'' ''x'' (VString ''two'')], None)"
    by simp
  from field_scan_first_match [of ?fs "''K''" _ "VStruct ?fs" True "[]" "''new''"] e fK
  have m: "setNodeValue True (VStruct ?fs) [''K''] ''new'' =
        (writeBack (VStruct ?fs) (VStruct ?fs), Some (ErrorString ''Path not found in config''))"
    by blast
  from field_scan_first_match [of _ _ _ _ _ _ "''h:1''" defaultFileConfig] nf
  have r: "ReadParameters (reflect_ConfigRoot defaultFileConfig) [''-server.Address'', ''h:1''] =
     (reflect_ConfigRoot defaultFileConfig, Some (ErrorString ''Path not found in config''))"
    by blast
  from f2 s m r show ?thesis
    by simp
qed

text \<open>
  C2 as the claim states it fails on \<open>["-a", "v1", "-b"]\<close>: the stream does not
  alternate, but the override \<open>a = v1\<close> is applied before the trailing flag is seen,
  and on the \<open>ConfigRoot\<close>, which has no field with the key \<open>a\<close>, the call returns
  \<open>Path not found in config\<close>, not the error of the argument syntax.
\<close>

theorem trailing_flag_after_failed_override:
  "\<not> alternates [''-a'', ''v1'', ''-b''] \<and>
   snd (ReadParameters (reflect_ConfigRoot defaultFileConfig) [''-a'', ''v1'', ''-b'']) =
     Some (ErrorString ''Path not found in config'') \<and>
   snd (ReadParameters (reflect_ConfigRoot defaultFileConfig) [''-a'', ''v1'', ''-b'']) \<noteq>
     Some (ErrorString ''Invalid Parameter String'')"
  by (simp add: isFlag_def HasPrefix_def ReadParameters_def setParameter_def TrimLeft_def
      reflect_ConfigRoot_def)

text \<open>
  C2, amended. The tokens are read left to right, a token that begins with \<open>-\<close> is a
  flag and its path is the token without its leading dashes, every other token is a
  value. \<open>ReadParameters\<close> applies the overrides that are paired before the first
  break of the alternation, in order, and returns the error of the first that fails;
  when none fails it returns \<open>Invalid Parameter String\<close> if the stream does not
  alternate and no error if it does. So the syntax error is returned exactly when the
  stream does not alternate and every override paired before the break has been applied
  without error. \<open>["-a", "-b", "v"]\<close> and \<open>["v"]\<close> fail with it on every tree;
  \<open>["-a", "v1", "-b"]\<close> fails on every \<open>ConfigRoot\<close> with \<open>Path not found in config\<close>.
\<close>

theorem argument_syntax_error:
  "ReadParameters c args =
     (case applyOverrides c (pairedBefore args) of
        (c', Some e) \<Rightarrow> (c', Some e)
      | (c', None) \<Rightarrow>
          (c', if alternates args then None else Some (ErrorString ''Invalid Parameter String''))) \<and>
   (snd (ReadParameters c args) = Some (ErrorString ''Invalid Parameter String'')) =
     (\<not> alternates args \<and> snd (applyOverrides c (pairedBefore args)) = None) \<and>
   (isFlag f \<longrightarrow> \<not> isFlag v \<longrightarrow>
      ReadParameters c [f, v] = applyOverrides c [(dropWhile (\<lambda>x. x = CHR ''-'') f, v)]) \<and>
   ReadParameters c [''-a'', ''-b'', ''v''] = (c, Some (ErrorString ''Invalid Parameter String'')) \<and>
   ReadParameters c [''v''] = (c, Some (ErrorString ''Invalid Parameter String'')) \<and>
   ReadParameters (reflect_ConfigRoot r) [''-a'', ''v1'', ''-b''] =
     (reflect_ConfigRoot r, Some (ErrorString ''Path not found in config''))"
proof (intro conjI impI)
  show scan: "ReadParameters c args =
     (case applyOverrides c (pairedBefore args) of
        (c', Some e) \<Rightarrow> (c', Some e)
      | (c', None) \<Rightarrow>
          (c', if alternates args then None else Some (ErrorString ''Invalid Parameter String'')))"
    by (simp add: ReadParameters_def ReadParametersLoop_scan [of c "[]" args])
  have no: "snd (applyOverrides c os) \<noteq> Some (ErrorString ''Invalid Parameter String'')" for c os
  proof (induction os arbitrary: c)
    case Nil
    show ?case by simp
  next
    case (Cons o1 os)
    obtain key x where o1: "o1 = (key, x)" by (cases o1)
    obtain c' r where s: "setParameter c key x = (c', r)" by (cases "setParameter c key x")
    show ?case
    proof (cases r)
      case None
      with o1 s Cons.IH [of c'] show ?thesis by simp
    next
      case (Some e)
      with o1 s setParameter_not_syntax_error [of c key x] show ?thesis by simp
    qed
  qed
  obtain c' r where a: "applyOverrides c (pairedBefore args) = (c', r)"
    by (cases "applyOverrides c (pairedBefore args)")
  with no [of c "pairedBefore args"]
  show "(snd (ReadParameters c args) = Some (ErrorString ''Invalid Parameter String'')) =
     (\<not> alternates args \<and> snd (applyOverrides c (pairedBefore args)) = None)"
    by (cases r) (simp_all add: scan)
next
  assume "isFlag f" and "\<not> isFlag v"
  then show "ReadParameters c [f, v] = applyOverrides c [(dropWhile (\<lambda>x. x = CHR ''-'') f, v)]"
    by (simp add: ReadParameters_def isFlag_def TrimLeft_def split: prod.splits option.splits)
next
  show "ReadParameters c [''-a'', ''-b'', ''v''] = (c, Some (ErrorString ''Invalid Parameter String''))"
    by (simp add: ReadParameters_def HasPrefix_def)
  show "ReadParameters c [''v''] = (c, Some (ErrorString ''Invalid Parameter String''))"
    by (simp add: ReadParameters_def HasPrefix_def)
  show "ReadParameters (reflect_ConfigRoot r) [''-a'', ''v1'', ''-b''] =
     (reflect_ConfigRoot r, Some (ErrorString ''Path not found in config''))"
    by (simp add: ReadParameters_def HasPrefix_def setParameter_def TrimLeft_def
        reflect_ConfigRoot_def)
qed

theorem argument_syntax_error_witness:
  "ReadParameters (reflect_ConfigRoot defaultFileConfig) [''--verbose'', ''0''] =
     applyOverrides (reflect_ConfigRoot defaultFileConfig) [(''verbose'', ''0'')] \<and>
   snd (ReadParameters (reflect_ConfigRoot defaultFileConfig) [''-verbose'', ''0'', ''-redis.index'']) =
     Some (ErrorString ''Invalid Parameter String'')"
proof -
  let ?c = "reflect_ConfigRoot defaultFileConfig"
  have f: "isFlag ''--verbose''" and v: "\<not> isFlag ''0''"
    by (simp_all add: isFlag_def HasPrefix_def)
  have d: "dropWhile (\<lambda>x. x = CHR ''-'') ''--verbose'' = ''verbose''"
    by simp
  have n: "\<not> alternates [''-verbose'', ''0'', ''-redis.index'']"
    by (simp add: isFlag_def HasPrefix_def)
  have o: "snd (applyOverrides ?c (pairedBefore [''-verbose'', ''0'', ''-redis.index''])) = None"
    by (simp add: isFlag_def HasPrefix_def TrimLeft_def setParameter_def reflect_ConfigRoot_def
        ParseBool_def)
  note t = argument_syntax_error [of ?c _ "''--verbose''" "''0''"]
  from t f v d have "ReadParameters ?c [''--verbose'', ''0''] =
      applyOverrides ?c [(''verbose'', ''0'')]"
    by metis
  moreover from argument_syntax_error [of ?c "[''-verbose'', ''0'', ''-redis.index'']"] n o
  have "snd (ReadParameters ?c [''-verbose'', ''0'', ''-redis.index'']) =
      Some (ErrorString ''Invalid Parameter String'')"
    by blast
  ultimately show ?thesis
    by blast
qed

text \<open>
  C3. A nil pointer that an override descends into is set to a new zero value of its
  element type before the walk goes on: the call on the nil pointer is the call on the
  pointer to the zero value, the pointer is not nil afterwards whatever the outcome, and
  this holds as well for a nil pointer that the path reaches further down in the tree. On
  a \<open>ConfigRoot\<close> whose \<open>Auth\<close> is nil, \<open>-server.auth.username alice\<close> leaves an
  auth record with that user name and the empty password, and the two overrides of the
  specification leave the record with both fields set.
\<close>

theorem nil_pointer_allocated:
  "setNodeValue ok (VPtr t None) (seg # rest) value =
     setNodeValue ok (VPtr t (Some (zero t))) (seg # rest) value \<and>
   (\<exists>e. fst (setNodeValue ok (VPtr t None) (seg # rest) value) = VPtr t (Some e)) \<and>
   (nodeAt c p = Some (VPtr t None) \<longrightarrow> p \<noteq> [] \<longrightarrow>
      (\<exists>e. nodeAt (fst (setNodeValue False c (p @ seg # rest) value)) p = Some (VPtr t (Some e)))) \<and>
   (Auth (Server r) = None \<longrightarrow>
      zero type_ConfigAuth = reflect_ConfigAuth \<lparr>Username = [], Auth_Password = []\<rparr> \<and>
      ReadParameters (reflect_ConfigRoot r) [''-server.auth.username'', ''alice''] =
        (reflect_ConfigRoot (r\<lparr>Server := (Server r)
           \<lparr>Auth := Some \<lparr>Username = ''alice'', Auth_Password = []\<rparr>\<rparr>\<rparr>), None) \<and>
      ReadParameters (reflect_ConfigRoot r)
          [''-server.auth.username'', ''alice'', ''-server.auth.password'', ''s3cr3t''] =
        (reflect_ConfigRoot (r\<lparr>Server := (Server r)
           \<lparr>Auth := Some \<lparr>Username = ''alice'', Auth_Password = ''s3cr3t''\<rparr>\<rparr>\<rparr>), None))"
proof (intro conjI impI)
  show eq: "setNodeValue ok (VPtr t None) (seg # rest) value =
     setNodeValue ok (VPtr t (Some (zero t))) (seg # rest) value"
    by (cases "zero t") (simp_all split: option.splits prod.splits)
  show ex: "\<exists>e. fst (setNodeValue ok (VPtr t None) (seg # rest) value) = VPtr t (Some e)" for ok
    by (cases "zero t") (simp_all split: option.splits prod.splits)
  assume n: "nodeAt c p = Some (VPtr t None)" and p: "p \<noteq> []"
  from walk_prefix [of c p "VPtr t None" False "seg # rest" "value"] n p
  have "nodeAt (fst (setNodeValue False c (p @ seg # rest) value)) p =
      Some (fst (setNodeValue True (VPtr t None) (seg # rest) value))"
    by blast
  with ex [of True]
  show "\<exists>e. nodeAt (fst (setNodeValue False c (p @ seg # rest) value)) p = Some (VPtr t (Some e))"
    by auto
next
  show "zero type_ConfigAuth = reflect_ConfigAuth \<lparr>Username = [], Auth_Password = []\<rparr>"
    by (simp add: type_ConfigAuth_def reflect_ConfigAuth_def)
next
  assume "Auth (Server r) = None"
  then show "ReadParameters (reflect_ConfigRoot r) [''-server.auth.username'', ''alice''] =
        (reflect_ConfigRoot (r\<lparr>Server := (Server r)
           \<lparr>Auth := Some \<lparr>Username = ''alice'', Auth_Password = []\<rparr>\<rparr>\<rparr>), None)"
    by (simp add: ReadParameters_def setParameter_def reflect_defs HasPrefix_def TrimLeft_def)
next
  assume "Auth (Server r) = None"
  then show "ReadParameters (reflect_ConfigRoot r)
          [''-server.auth.username'', ''alice'', ''-server.auth.password'', ''s3cr3t''] =
        (reflect_ConfigRoot (r\<lparr>Server := (Server r)
           \<lparr>Auth := Some \<lparr>Username = ''alice'', Auth_Password = ''s3cr3t''\<rparr>\<rparr>\<rparr>), None)"
    by (simp add: ReadParameters_def setParameter_def reflect_defs HasPrefix_def TrimLeft_def)
qed

theorem nil_pointer_allocated_witness:
  "(\<exists>e. nodeAt (fst (setNodeValue False (reflect_ConfigRoot defaultFileConfig)
       ([''server'', ''auth''] @ [''nosuch''])  ''x'')) [''server'', ''auth''] =
       Some (VPtr type_ConfigAuth (Some e))) \<and>
   ReadParameters (reflect_ConfigRoot defaultFileConfig)
       [''-server.auth.username'', ''alice'', ''-server.auth.password'', ''s3cr3t''] =
     (reflect_ConfigRoot (defaultFileConfig\<lparr>Server := (Server defaultFileConfig)
        \<lparr>Auth := Some \<lparr>Username = ''alice'', Auth_Password = ''s3cr3t''\<rparr>\<rparr>\<rparr>), None)"
proof -
  let ?c = "reflect_ConfigRoot defaultFileConfig"
  have n: "nodeAt ?c [''server'', ''auth''] = Some (VPtr type_ConfigAuth None)"
    by (simp add: reflect_ConfigRoot_def reflect_ConfigServer_def defaultFileConfig_def)
  have p: "[''server'', ''auth''] \<noteq> ([] :: string list)"
    by simp
  have a: "Auth (Server defaultFileConfig) = None"
    by (simp add: defaultFileConfig_def)
  note t = nil_pointer_allocated
    [of False type_ConfigAuth "''nosuch''" "[]" "''x''" ?c "[''server'', ''auth'']" defaultFileConfig]
  from t n p a show ?thesis
    by blast
qed

text \<open>
  C4 as the claim states it fails on \<open>tRUE\<close>: with its capitals lowered it is the
  canonical form \<open>true\<close>, but \<open>ParseBool\<close> does not list this spelling, and
  \<open>-server.cors tRUE\<close> fails on the default tree.
\<close>

theorem mixed_case_true_rejected:
  "boolSpellingIgnoringCase ''tRUE'' \<and>
   ReadParameters (reflect_ConfigRoot defaultFileConfig) [''-server.cors'', ''tRUE''] =
     (reflect_ConfigRoot defaultFileConfig, Some (NumError ''ParseBool'' ''tRUE'' ErrSyntax))"
  by (simp add: boolSpellingIgnoringCase_def toLower_def ReadParameters_def setParameter_def
      HasPrefix_def TrimLeft_def reflect_ConfigRoot_def reflect_ConfigServer_def ParseBool_def)

text \<open>
  C4, amended. An override that ends at a boolean leaf accepts exactly the twelve
  spellings \<open>1\<close>, \<open>t\<close>, \<open>T\<close>, \<open>true\<close>, \<open>TRUE\<close>, \<open>True\<close> (which set true) and
  \<open>0\<close>, \<open>f\<close>, \<open>F\<close>, \<open>false\<close>, \<open>FALSE\<close>, \<open>False\<close> (which set false): each is
  one of the six canonical forms when case is ignored, but no other mix of cases is
  accepted. Every other value fails with the syntax error of \<open>ParseBool\<close> and the leaf
  keeps its value. This holds at the leaf, at the end of every path that leads to a
  boolean, and for the three booleans of \<open>ConfigRoot\<close>; \<open>-server.cors yes\<close> fails,
  \<open>-server.cors true\<close> and \<open>-server.cors 1\<close> set the field to true.
\<close>

theorem boolean_leaf_spellings:
  "setNodeValue True (VBool b) [] value =
     (if value \<in> set [''1'', ''t'', ''T'', ''true'', ''TRUE'', ''True''] then (VBool True, None)
      else if value \<in> set [''0'', ''f'', ''F'', ''false'', ''FALSE'', ''False'']
        then (VBool False, None)
      else (VBool b, Some (NumError ''ParseBool'' value ErrSyntax))) \<and>
   (ParseBool value = Inr b' \<longrightarrow> boolSpellingIgnoringCase value) \<and>
   (nodeAt c path = Some (VBool b) \<longrightarrow> path \<noteq> [] \<longrightarrow>
      setNodeValue False c path value =
        (case ParseBool value of
           Inl err \<Rightarrow> (putAt c path (VBool b), Some err)
         | Inr x \<Rightarrow> (putAt c path (VBool x), None)) \<and>
      nodeAt (putAt c path (VBool b')) path = Some (VBool b') \<and>
      (\<forall>q l. isScalar l \<longrightarrow> (nodeAt (putAt c path (VBool b)) q = Some l) = (nodeAt c q = Some l))) \<and>
   (\<not> isFlag value \<longrightarrow>
      ReadParameters (reflect_ConfigRoot r) [''-server.cors'', value] =
        (case ParseBool value of
           Inl err \<Rightarrow> (reflect_ConfigRoot r, Some err)
         | Inr x \<Rightarrow> (reflect_ConfigRoot (r\<lparr>Server := (Server r)\<lparr>CORS := x\<rparr>\<rparr>), None)) \<and>
      ReadParameters (reflect_ConfigRoot r) [''-server.dbmanagment'', value] =
        (case ParseBool value of
           Inl err \<Rightarrow> (reflect_ConfigRoot r, Some err)
         | Inr x \<Rightarrow> (reflect_ConfigRoot (r\<lparr>Server := (Server r)\<lparr>DbManagment := x\<rparr>\<rparr>), None)) \<and>
      ReadParameters (reflect_ConfigRoot r) [''-verbose'', value] =
        (case ParseBool value of
           Inl err \<Rightarrow> (reflect_ConfigRoot r, Some err)
         | Inr x \<Rightarrow> (reflect_ConfigRoot (r\<lparr>Verbose := x\<rparr>), None))) \<and>
   ReadParameters (reflect_ConfigRoot r) [''-server.cors'', ''yes''] =
     (reflect_ConfigRoot r, Some (NumError ''ParseBool'' ''yes'' ErrSyntax)) \<and>
   ReadParameters (reflect_ConfigRoot r) [''-server.cors'', ''true''] =
     (reflect_ConfigRoot (r\<lparr>Server := (Server r)\<lparr>CORS := True\<rparr>\<rparr>), None) \<and>
   ReadParameters (reflect_ConfigRoot r) [''-server.cors'', ''1''] =
     (reflect_ConfigRoot (r\<lparr>Server := (Server r)\<lparr>CORS := True\<rparr>\<rparr>), None)"
proof -
  have leaf: "setNodeValue True (VBool b) [] value =
     (if value \<in> set [''1'', ''t'', ''T'', ''true'', ''TRUE'', ''True''] then (VBool True, None)
      else if value \<in> set [''0'', ''f'', ''F'', ''false'', ''FALSE'', ''False'']
        then (VBool False, None)
      else (VBool b, Some (NumError ''ParseBool'' value ErrSyntax)))"
    by (simp add: ParseBool_def)
  have ci: "ParseBool value = Inr b' \<longrightarrow> boolSpellingIgnoringCase value"
    by (auto simp add: ParseBool_def boolSpellingIgnoringCase_def toLower_def split: if_splits)
  have walk: "nodeAt c path = Some (VBool b) \<longrightarrow> path \<noteq> [] \<longrightarrow>
      setNodeValue False c path value =
        (case ParseBool value of
           Inl err \<Rightarrow> (putAt c path (VBool b), Some err)
         | Inr x \<Rightarrow> (putAt c path (VBool x), None)) \<and>
      nodeAt (putAt c path (VBool b')) path = Some (VBool b') \<and>
      (\<forall>q l. isScalar l \<longrightarrow> (nodeAt (putAt c path (VBool b)) q = Some l) = (nodeAt c q = Some l))"
  proof (intro impI conjI allI)
    assume n: "nodeAt c path = Some (VBool b)" and p: "path \<noteq> []"
    from walk_reaches [OF n, of False "value"] p
    show "setNodeValue False c path value =
        (case ParseBool value of
           Inl err \<Rightarrow> (putAt c path (VBool b), Some err)
         | Inr x \<Rightarrow> (putAt c path (VBool x), None))"
      by (simp split: sum.splits)
    from n show "nodeAt (putAt c path (VBool b')) path = Some (VBool b')"
      by (rule nodeAt_putAt)
    fix q l
    assume "isScalar l"
    with n show "(nodeAt (putAt c path (VBool b)) q = Some l) = (nodeAt c q = Some l)"
      by (intro putAt_keeps_scalars) simp_all
  qed
  have e2e: "ReadParameters (reflect_ConfigRoot r) [''-server.cors'', x] =
        (case ParseBool x of
           Inl err \<Rightarrow> (reflect_ConfigRoot r, Some err)
         | Inr x \<Rightarrow> (reflect_ConfigRoot (r\<lparr>Server := (Server r)\<lparr>CORS := x\<rparr>\<rparr>), None))"
    "ReadParameters (reflect_ConfigRoot r) [''-server.dbmanagment'', x] =
        (case ParseBool x of
           Inl err \<Rightarrow> (reflect_ConfigRoot r, Some err)
         | Inr x \<Rightarrow> (reflect_ConfigRoot (r\<lparr>Server := (Server r)\<lparr>DbManagment := x\<rparr>\<rparr>), None))"
    "ReadParameters (reflect_ConfigRoot r) [''-verbose'', x] =
        (case ParseBool x of
           Inl err \<Rightarrow> (reflect_ConfigRoot r, Some err)
         | Inr x \<Rightarrow> (reflect_ConfigRoot (r\<lparr>Verbose := x\<rparr>), None))"
    if "\<not> isFlag x" for x
    using that
    by (simp_all add: ReadParameters_def setParameter_def reflect_defs isFlag_def HasPrefix_def
        TrimLeft_def split: sum.splits)
  have nf: "\<not> isFlag ''yes''" "\<not> isFlag ''true''" "\<not> isFlag ''1''"
    by (simp_all add: isFlag_def HasPrefix_def)
  have ex: "ReadParameters (reflect_ConfigRoot r) [''-server.cors'', ''yes''] =
     (reflect_ConfigRoot r, Some (NumError ''ParseBool'' ''yes'' ErrSyntax))"
    "ReadParameters (reflect_ConfigRoot r) [''-server.cors'', ''true''] =
     (reflect_ConfigRoot (r\<lparr>Server := (Server r)\<lparr>CORS := True\<rparr>\<rparr>), None)"
    "ReadParameters (reflect_ConfigRoot r) [''-server.cors'', ''1''] =
     (reflect_ConfigRoot (r\<lparr>Server := (Server r)\<lparr>CORS := True\<rparr>\<rparr>), None)"
    by (simp_all add: e2e(1) [OF nf(1)] e2e(1) [OF nf(2)] e2e(1) [OF nf(3)] ParseBool_def)
  from leaf ci walk e2e [of "value"] ex show ?thesis
    by blast
qed

theorem boolean_leaf_spellings_witness:
  "boolSpellingIgnoringCase ''TRUE'' \<and>
   setNodeValue False (reflect_ConfigRoot defaultFileConfig) [''server'', ''cors''] ''F'' =
     (putAt (reflect_ConfigRoot defaultFileConfig) [''server'', ''cors''] (VBool False), None) \<and>
   nodeAt (putAt (reflect_ConfigRoot defaultFileConfig) [''server'', ''cors''] (VBool False))
     [''server'', ''cors''] = Some (VBool False) \<and>
   nodeAt (putAt (reflect_ConfigRoot defaultFileConfig) [''server'', ''cors''] (VBool True))
     [''verbose''] = Some (VBool True) \<and>
   ReadParameters (reflect_ConfigRoot defaultFileConfig) [''-verbose'', ''False''] =
     (reflect_ConfigRoot (defaultFileConfig\<lparr>Verbose := False\<rparr>), None)"
proof -
  let ?c = "reflect_ConfigRoot defaultFileConfig"
  have pb: "ParseBool ''TRUE'' = Inr True" "ParseBool ''F'' = Inr False"
    "ParseBool ''False'' = Inr False"
    by (simp_all add: ParseBool_def)
  have n: "nodeAt ?c [''server'', ''cors''] = Some (VBool True)"
    by (simp add: reflect_ConfigRoot_def reflect_ConfigServer_def defaultFileConfig_def)
  have v: "nodeAt ?c [''verbose''] = Some (VBool True)"
    by (simp add: reflect_ConfigRoot_def defaultFileConfig_def)
  have p: "[''server'', ''cors''] \<noteq> ([] :: string list)"
    by simp
  have s: "isScalar (VBool True)"
    by simp
  have nf: "\<not> isFlag ''False''"
    by (simp add: isFlag_def HasPrefix_def)
  have a: "boolSpellingIgnoringCase ''TRUE''"
    using boolean_leaf_spellings [of _ "''TRUE''" True] pb(1) by blast
  note t = boolean_leaf_spellings [of True "''F''" False ?c "[''server'', ''cors'']"]
  from t n p have w: "setNodeValue False ?c [''server'', ''cors''] ''F'' =
        (case ParseBool ''F'' of
           Inl err \<Rightarrow> (putAt ?c [''server'', ''cors''] (VBool True), Some err)
         | Inr x \<Rightarrow> (putAt ?c [''server'', ''cors''] (VBool x), None))"
    and g: "nodeAt (putAt ?c [''server'', ''cors''] (VBool False)) [''server'', ''cors''] =
      Some (VBool False)"
    and k: "\<forall>q l. isScalar l \<longrightarrow>
      (nodeAt (putAt ?c [''server'', ''cors''] (VBool True)) q = Some l) = (nodeAt ?c q = Some l)"
    by blast+
  from w have w': "setNodeValue False ?c [''server'', ''cors''] ''F'' =
      (putAt ?c [''server'', ''cors''] (VBool False), None)"
    by (simp only: pb(2) sum.case)
  from k s v have k': "nodeAt (putAt ?c [''server'', ''cors''] (VBool True)) [''verbose''] =
      Some (VBool True)"
    by blast
  from boolean_leaf_spellings [of _ "''False''" _ _ _ defaultFileConfig] nf
  have "ReadParameters ?c [''-verbose'', ''False''] =
        (case ParseBool ''False'' of
           Inl err \<Rightarrow> (?c, Some err)
         | Inr x \<Rightarrow> (reflect_ConfigRoot (defaultFileConfig\<lparr>Verbose := x\<rparr>), None))"
    by blast
  then have e: "ReadParameters ?c [''-verbose'', ''False''] =
      (reflect_ConfigRoot (defaultFileConfig\<lparr>Verbose := False\<rparr>), None)"
    by (simp only: pb(3) sum.case)
  from a w' g k' e show ?thesis
    by blast
qed




text \<open>
  C6. When an override fails after a prefix of the arguments has been applied without
  error, \<open>ReadParameters\<close> returns the error of that override whatever arguments
  follow, and the tree is the one the earlier overrides left, as the failing override
  left it: every scalar leaf reads as it did after the earlier overrides, nothing is
  rolled back. On every \<open>ConfigRoot\<close>, an address, then an index that is not a number,
  then a third override: the address stays written, the error is that of the index and
  the third override is not applied.
\<close>

theorem first_error_aborts:
  "(ReadParameters c pre = (c1, None) \<longrightarrow> isFlag f \<longrightarrow> \<not> isFlag v \<longrightarrow>
      setParameter c1 (TrimLeft f ''-'') v = (c2, Some e) \<longrightarrow>
      ReadParameters c (pre @ f # v # rest) = (c2, Some e) \<and>
      (\<forall>q l. isScalar l \<longrightarrow> (nodeAt c2 q = Some l) = (nodeAt c1 q = Some l))) \<and>
   (\<not> isFlag a \<longrightarrow>
      ReadParameters (reflect_ConfigRoot r)
          [''-server.address'', a, ''-redis.index'', ''notanumber'', ''-verbose'', ''false''] =
        (reflect_ConfigRoot (r\<lparr>Server := (Server r)\<lparr>Server_Address := a\<rparr>\<rparr>),
         Some (NumError ''ParseInt'' ''notanumber'' ErrSyntax)))"
proof (intro conjI impI)
  assume p: "ReadParameters c pre = (c1, None)" and f: "isFlag f" and v: "\<not> isFlag v"
    and s: "setParameter c1 (TrimLeft f ''-'') v = (c2, Some e)"
  from f v s have "ReadParameters c1 (f # v # rest) = (c2, Some e)"
    by (simp add: ReadParameters_def isFlag_def)
  with ReadParameters_append [OF p, of "f # v # rest"]
  show "ReadParameters c (pre @ f # v # rest) = (c2, Some e)"
    by simp
  from s have "snd (setNodeValue False c1 (Split (TrimLeft f ''-'') CHR ''.'') v) = Some e"
    and "c2 = fst (setNodeValue False c1 (Split (TrimLeft f ''-'') CHR ''.'') v)"
    by (simp_all add: setParameter_def)
  then show "\<forall>q l. isScalar l \<longrightarrow> (nodeAt c2 q = Some l) = (nodeAt c1 q = Some l)"
    using failing_override_keeps_scalars by blast
next
  assume "\<not> isFlag a"
  then show "ReadParameters (reflect_ConfigRoot r)
          [''-server.address'', a, ''-redis.index'', ''notanumber'', ''-verbose'', ''false''] =
        (reflect_ConfigRoot (r\<lparr>Server := (Server r)\<lparr>Server_Address := a\<rparr>\<rparr>),
         Some (NumError ''ParseInt'' ''notanumber'' ErrSyntax))"
    by (simp add: ReadParameters_def setParameter_def reflect_defs isFlag_def HasPrefix_def
        TrimLeft_def ParseInt_def parseUint_def isDigit_def)
qed

theorem first_error_aborts_witness:
  "ReadParameters (reflect_ConfigRoot defaultFileConfig)
      ([''-verbose'', ''0''] @ ''-redis.index'' # ''x'' # [''-server.cors'', ''0'']) =
     (reflect_ConfigRoot (defaultFileConfig\<lparr>Verbose := False\<rparr>),
      Some (NumError ''ParseInt'' ''x'' ErrSyntax)) \<and>
   nodeAt (reflect_ConfigRoot (defaultFileConfig\<lparr>Verbose := False\<rparr>)) [''verbose''] =
     Some (VBool False) \<and>
   ReadParameters (reflect_ConfigRoot defaultFileConfig)
      [''-server.address'', ''h:1'', ''-redis.index'', ''notanumber'', ''-verbose'', ''false''] =
     (reflect_ConfigRoot (defaultFileConfig\<lparr>Server := (Server defaultFileConfig)
        \<lparr>Server_Address := ''h:1''\<rparr>\<rparr>),
      Some (NumError ''ParseInt'' ''notanumber'' ErrSyntax))"
proof -
  let ?c = "reflect_ConfigRoot defaultFileConfig"
  let ?c1 = "reflect_ConfigRoot (defaultFileConfig\<lparr>Verbose := False\<rparr>)"
  have f: "isFlag ''-redis.index''" and v: "\<not> isFlag ''x''" and a: "\<not> isFlag ''h:1''"
    by (simp_all add: isFlag_def HasPrefix_def)
  have p: "ReadParameters ?c [''-verbose'', ''0''] = (?c1, None)"
    by (simp add: ReadParameters_def setParameter_def reflect_ConfigRoot_def HasPrefix_def
        TrimLeft_def ParseBool_def)
  have s: "setParameter ?c1 (TrimLeft ''-redis.index'' ''-'') ''x'' =
      (?c1, Some (NumError ''ParseInt'' ''x'' ErrSyntax))"
    by (simp add: setParameter_def reflect_ConfigRoot_def reflect_ConfigRedis_def TrimLeft_def
        ParseInt_def parseUint_def isDigit_def)
  have n: "nodeAt ?c1 [''verbose''] = Some (VBool False)"
    by (simp add: reflect_ConfigRoot_def)
  note t = first_error_aborts
    [of ?c "[''-verbose'', ''0'']" ?c1 "''-redis.index''" "''x''" ?c1
      "NumError ''ParseInt'' ''x'' ErrSyntax" "[''-server.cors'', ''0'']" "''h:1''" defaultFileConfig]
  from t p f v s have "ReadParameters ?c
      ([''-verbose'', ''0''] @ ''-redis.index'' # ''x'' # [''-server.cors'', ''0'']) =
     (?c1, Some (NumError ''ParseInt'' ''x'' ErrSyntax))"
    by blast
  moreover from t a have "ReadParameters ?c
      [''-server.address'', ''h:1'', ''-redis.index'', ''notanumber'', ''-verbose'', ''false''] =
     (reflect_ConfigRoot (defaultFileConfig\<lparr>Server := (Server defaultFileConfig)
        \<lparr>Server_Address := ''h:1''\<rparr>\<rparr>),
      Some (NumError ''ParseInt'' ''notanumber'' ErrSyntax))"
    by blast
  ultimately show ?thesis
    using n by blast
qed

text \<open>
  C7. Overrides are applied in the order of the arguments: when a prefix of the
  arguments has been applied without error, the call goes on from the tree the prefix
  left. Last write wins: when a call succeeds, the leaf at the path of an override holds
  the value of that override, whatever earlier overrides of the call wrote there,
  provided no later override of the call has the same path. For a flag given twice in a
  row, the outcome of the two overrides is the outcome of the later alone. On every
  \<open>ConfigRoot\<close> the two overrides of \<open>server.address\<close> of the specification leave
  the later address and no error.
\<close>

theorem overrides_in_order_last_wins:
  "(ReadParameters c pre = (c1, None) \<longrightarrow>
      ReadParameters c (pre @ rest) = ReadParameters c1 rest) \<and>
   (ReadParameters c (pre @ g # v # post) = (c3, None) \<longrightarrow>
      alternates pre \<longrightarrow> isFlag g \<longrightarrow> \<not> isFlag v \<longrightarrow>
      list_all (\<lambda>(k, x). Split k CHR ''.'' \<noteq> Split (TrimLeft g ''-'') CHR ''.'')
        (pairedBefore post) \<longrightarrow>
      (\<exists>l. nodeAt c3 (Split (TrimLeft g ''-'') CHR ''.'') = Some l \<and> holdsValue l v)) \<and>
   (isFlag f \<longrightarrow> \<not> isFlag v1 \<longrightarrow> \<not> isFlag v2 \<longrightarrow>
      ReadParameters c [f, v1, f, v2] = (c2, None) \<longrightarrow>
      ReadParameters c [f, v2] = (c2, None)) \<and>
   ReadParameters (reflect_ConfigRoot r)
       [''-server.address'', ''1.2.3.4:80'', ''-server.address'', ''5.6.7.8:90''] =
     (reflect_ConfigRoot (r\<lparr>Server := (Server r)\<lparr>Server_Address := ''5.6.7.8:90''\<rparr>\<rparr>), None)"
proof (intro conjI impI)
  assume "ReadParameters c pre = (c1, None)"
  then show "ReadParameters c (pre @ rest) = ReadParameters c1 rest"
    by (rule ReadParameters_append)
next
  assume "ReadParameters c (pre @ g # v # post) = (c3, None)" and "alternates pre"
    and "isFlag g" and "\<not> isFlag v"
    and "list_all (\<lambda>(k, x). Split k CHR ''.'' \<noteq> Split (TrimLeft g ''-'') CHR ''.'')
        (pairedBefore post)"
  then show "\<exists>l. nodeAt c3 (Split (TrimLeft g ''-'') CHR ''.'') = Some l \<and> holdsValue l v"
    by (rule last_override_of_a_path_holds)
next
  assume f: "isFlag f" and v1: "\<not> isFlag v1" and v2: "\<not> isFlag v2"
    and r: "ReadParameters c [f, v1, f, v2] = (c2, None)"
  let ?p = "Split (TrimLeft f ''-'') CHR ''.''"
  let ?first = "setNodeValue False c ?p v1"
  from f v1 v2 r have s1: "snd ?first = None"
    by (cases ?first) (auto simp add: ReadParameters_def setParameter_def isFlag_def
        split: option.splits prod.splits)
  with f v1 v2 r have s2: "setNodeValue False (fst ?first) ?p v2 = (c2, None)"
    by (cases ?first) (auto simp add: ReadParameters_def setParameter_def isFlag_def
        split: option.splits prod.splits)
  then have "snd (setNodeValue False (fst ?first) ?p v2) = None"
    by simp
  from override_after_override [OF s1 this] s2 have "setNodeValue False c ?p v2 = (c2, None)"
    by simp
  with f v2 show "ReadParameters c [f, v2] = (c2, None)"
    by (simp add: ReadParameters_def setParameter_def isFlag_def)
next
  show "ReadParameters (reflect_ConfigRoot r)
       [''-server.address'', ''1.2.3.4:80'', ''-server.address'', ''5.6.7.8:90''] =
     (reflect_ConfigRoot (r\<lparr>Server := (Server r)\<lparr>Server_Address := ''5.6.7.8:90''\<rparr>\<rparr>), None)"
    by (simp add: ReadParameters_def setParameter_def reflect_defs HasPrefix_def TrimLeft_def)
qed

theorem overrides_in_order_last_wins_witness:
  "ReadParameters (reflect_ConfigRoot defaultFileConfig)
      ([''-verbose'', ''0''] @ [''-redis.index'', ''7'']) =
     ReadParameters (reflect_ConfigRoot (defaultFileConfig\<lparr>Verbose := False\<rparr>))
       [''-redis.index'', ''7''] \<and>
   ReadParameters (reflect_ConfigRoot defaultFileConfig) [''-verbose'', ''0''] =
     (reflect_ConfigRoot (defaultFileConfig\<lparr>Verbose := False\<rparr>), None) \<and>
   (\<exists>l. nodeAt (reflect_ConfigRoot (defaultFileConfig\<lparr>Server := (Server defaultFileConfig)
          \<lparr>Server_Address := ''b:2'', CORS := False\<rparr>\<rparr>))
        (Split (TrimLeft ''-server.address'' ''-'') CHR ''.'') = Some l \<and>
      holdsValue l ''b:2'')"
proof -
  let ?c = "reflect_ConfigRoot defaultFileConfig"
  let ?c1 = "reflect_ConfigRoot (defaultFileConfig\<lparr>Verbose := False\<rparr>)"
  let ?c3 = "reflect_ConfigRoot (defaultFileConfig\<lparr>Server := (Server defaultFileConfig)
          \<lparr>Server_Address := ''b:2'', CORS := False\<rparr>\<rparr>)"
  have f: "isFlag ''-verbose''" and v1: "\<not> isFlag ''1''" and v2: "\<not> isFlag ''0''"
    and g: "isFlag ''-server.address''" and v: "\<not> isFlag ''b:2''"
    by (simp_all add: isFlag_def HasPrefix_def)
  have p: "ReadParameters ?c [''-verbose'', ''0''] = (?c1, None)"
    by (simp add: ReadParameters_def setParameter_def reflect_ConfigRoot_def HasPrefix_def
        TrimLeft_def ParseBool_def)
  have q: "ReadParameters ?c [''-verbose'', ''1'', ''-verbose'', ''0''] = (?c1, None)"
    by (simp add: ReadParameters_def setParameter_def reflect_ConfigRoot_def HasPrefix_def
        TrimLeft_def ParseBool_def)
  have a: "alternates [''-server.address'', ''a:1'']"
    by (simp add: isFlag_def HasPrefix_def)
  have o: "list_all (\<lambda>(k, x). Split k CHR ''.'' \<noteq> Split (TrimLeft ''-server.address'' ''-'') CHR ''.'')
      (pairedBefore [''-server.cors'', ''0''])"
    by (simp add: isFlag_def HasPrefix_def TrimLeft_def)
  have w: "ReadParameters ?c ([''-server.address'', ''a:1''] @
      ''-server.address'' # ''b:2'' # [''-server.cors'', ''0'']) = (?c3, None)"
    by (simp add: ReadParameters_def setParameter_def reflect_ConfigRoot_def
        reflect_ConfigServer_def HasPrefix_def TrimLeft_def ParseBool_def)
  note t = overrides_in_order_last_wins
    [of ?c "[''-verbose'', ''0'']" ?c1 "[''-redis.index'', ''7'']"]
  note u = overrides_in_order_last_wins
    [of ?c "[''-server.address'', ''a:1'']" _ _ "''-server.address''" "''b:2''"
      "[''-server.cors'', ''0'']" ?c3,
      THEN conjunct2, THEN conjunct1, rule_format, OF w a g v o]
  note d = overrides_in_order_last_wins
    [of ?c _ _ _ _ _ _ _ "''-verbose''" "''1''" "''0''" ?c1,
      THEN conjunct2, THEN conjunct2, THEN conjunct1, rule_format, OF f v1 v2 q]
  from t p have "ReadParameters ?c ([''-verbose'', ''0''] @ [''-redis.index'', ''7'']) =
      ReadParameters ?c1 [''-redis.index'', ''7'']"
    by blast
  with d u show ?thesis
    by blast
qed



text \<open>
  C9 as the claim states it fails on the value \<open>~~x\<close>: with the marker stripped the
  remainder is \<open>~x\<close>, which joined onto \<open>/opt/app\<close> is \<open>/opt/app/~x\<close>, but
  \<open>ReadConfig\<close> resolves the value to \<open>/opt/app/x\<close>.
\<close>

theorem second_marker_stripped_too:
  "Databases (Paths (fst (ReadConfig
      (\<lambda>u. (defaultFileConfig\<lparr>Paths := (Paths defaultFileConfig)\<lparr>Databases := ''~~x''\<rparr>\<rparr>, None))
      () ''/opt/app''))) = ''/opt/app/x'' \<and>
   Join [''/opt/app'', tl ''~~x''] = ''/opt/app/~x''"
  by (simp add: ReadConfig_def resolvePath_def HasPrefix_def TrimLeft_def Clean_def
      defaultFileConfig_def)

text \<open>
  C9, amended. When the decoder succeeds, \<open>ReadConfig\<close> resolves the three fields
  \<open>Databases\<close>, \<open>Results\<close> and \<open>Mmseqs\<close> and changes nothing else (\<open>Temporary\<close>
  is not resolved): a value that starts with \<open>~\<close> loses all its leading \<open>~\<close>
  characters, not the first only, and the remainder is joined onto the anchor directory
  with \<open>filepath.Join\<close>; a value that does not start with \<open>~\<close> is left as it is.
  For a value with one marker that is the claim as stated. With the anchor \<open>/opt/app\<close>
  the value \<open>~databases\<close> resolves to \<open>/opt/app/databases\<close>, and the three paths of
  the default document resolve below the anchor. When the decoder fails, nothing is
  resolved.
\<close>

theorem path_fields_resolved:
  "(decode src = (config, None) \<longrightarrow>
      ReadConfig decode src relativeTo =
        (config\<lparr>Paths := (Paths config)
           \<lparr>Databases := resolvePath relativeTo (Databases (Paths config)),
            Results := resolvePath relativeTo (Results (Paths config)),
            Mmseqs := resolvePath relativeTo (Mmseqs (Paths config))\<rparr>\<rparr>, None)) \<and>
   (decode src = (config, Some msg) \<longrightarrow>
      ReadConfig decode src relativeTo =
        (config, Some (ErrorString (''Fatal error for config file: '' @ msg @ [CHR 0x0A])))) \<and>
   resolvePath relativeTo p =
     (if p \<noteq> [] \<and> hd p = CHR ''~''
      then Join [relativeTo, dropWhile (\<lambda>x. x = CHR ''~'') p] else p) \<and>
   (p = CHR ''~'' # remainder \<longrightarrow> \<not> HasPrefix remainder ''~'' \<longrightarrow>
      resolvePath relativeTo p = Join [relativeTo, remainder]) \<and>
   (\<not> HasPrefix p ''~'' \<longrightarrow> resolvePath relativeTo p = p) \<and>
   (relativeTo \<noteq> [] \<longrightarrow> Join [relativeTo, p] = Clean (relativeTo @ ''/'' @ p)) \<and>
   resolvePath ''/opt/app'' ''~databases'' = ''/opt/app/databases'' \<and>
   ReadConfig (\<lambda>u. (defaultFileConfig, None)) src ''/opt/app'' =
     (defaultFileConfig\<lparr>Paths :=
        \<lparr>Databases = ''/opt/app/databases'', Results = ''/opt/app/jobs'', Temporary = [],
         Mmseqs = ''/opt/app/mmseqs''\<rparr>\<rparr>, None)"
proof (intro conjI impI)
  assume "decode src = (config, None)"
  then show "ReadConfig decode src relativeTo =
        (config\<lparr>Paths := (Paths config)
           \<lparr>Databases := resolvePath relativeTo (Databases (Paths config)),
            Results := resolvePath relativeTo (Results (Paths config)),
            Mmseqs := resolvePath relativeTo (Mmseqs (Paths config))\<rparr>\<rparr>, None)"
    by (simp add: ReadConfig_def)
next
  assume "decode src = (config, Some msg)"
  then show "ReadConfig decode src relativeTo =
        (config, Some (ErrorString (''Fatal error for config file: '' @ msg @ [CHR 0x0A])))"
    by (simp add: ReadConfig_def)
next
  show "resolvePath relativeTo p =
     (if p \<noteq> [] \<and> hd p = CHR ''~''
      then Join [relativeTo, dropWhile (\<lambda>x. x = CHR ''~'') p] else p)"
    by (cases p) (simp_all add: resolvePath_def HasPrefix_def TrimLeft_def)
next
  assume "p = CHR ''~'' # remainder" and "\<not> HasPrefix remainder ''~''"
  then show "resolvePath relativeTo p = Join [relativeTo, remainder]"
    by (cases remainder) (simp_all add: resolvePath_def HasPrefix_def TrimLeft_def)
next
  assume "\<not> HasPrefix p ''~''"
  then show "resolvePath relativeTo p = p"
    by (simp add: resolvePath_def)
next
  assume "relativeTo \<noteq> []"
  then show "Join [relativeTo, p] = Clean (relativeTo @ ''/'' @ p)"
    by simp
next
  show "resolvePath ''/opt/app'' ''~databases'' = ''/opt/app/databases''"
    by (simp add: resolvePath_def HasPrefix_def TrimLeft_def Clean_def)
next
  show "ReadConfig (\<lambda>u. (defaultFileConfig, None)) src ''/opt/app'' =
     (defaultFileConfig\<lparr>Paths :=
        \<lparr>Databases = ''/opt/app/databases'', Results = ''/opt/app/jobs'', Temporary = [],
         Mmseqs = ''/opt/app/mmseqs''\<rparr>\<rparr>, None)"
    by (simp add: ReadConfig_def resolvePath_def HasPrefix_def TrimLeft_def Clean_def
        defaultFileConfig_def)
qed

theorem path_fields_resolved_witness:
  "ReadConfig (\<lambda>u. (defaultFileConfig\<lparr>Paths := (Paths defaultFileConfig)
        \<lparr>Results := ''/var/jobs'', Temporary := ''~tmp''\<rparr>\<rparr>, None)) () ''/srv/mmseqs-web'' =
     (defaultFileConfig\<lparr>Paths :=
        \<lparr>Databases = ''/srv/mmseqs-web/databases'', Results = ''/var/jobs'',
         Temporary = ''~tmp'', Mmseqs = ''/srv/mmseqs-web/mmseqs''\<rparr>\<rparr>, None) \<and>
   ReadConfig (\<lambda>u. (defaultFileConfig, Some ''EOF'')) () ''/srv/mmseqs-web'' =
     (defaultFileConfig,
      Some (ErrorString (''Fatal error for config file: '' @ ''EOF'' @ [CHR 0x0A]))) \<and>
   resolvePath ''/opt/app'' ''~jobs'' = Join [''/opt/app'', ''jobs''] \<and>
   resolvePath ''/opt/app'' ''/data/db'' = ''/data/db'' \<and>
   Join [''/opt/app'', ''jobs''] = ''/opt/app/jobs''"
proof -
  let ?cfg = "defaultFileConfig\<lparr>Paths := (Paths defaultFileConfig)
        \<lparr>Results := ''/var/jobs'', Temporary := ''~tmp''\<rparr>\<rparr>"
  have d: "(\<lambda>u. (?cfg, None)) () = (?cfg, None)"
    "(\<lambda>u. (defaultFileConfig, Some ''EOF'')) () = (defaultFileConfig, Some ''EOF'')"
    by simp_all
  have h: "\<not> HasPrefix ''jobs'' ''~''" "\<not> HasPrefix ''/data/db'' ''~''"
    "''/opt/app'' \<noteq> []"
    by (simp_all add: HasPrefix_def)
  from path_fields_resolved [of "\<lambda>u. (?cfg, None)" "()" ?cfg "''/srv/mmseqs-web''"] d(1)
  have "ReadConfig (\<lambda>u. (?cfg, None)) () ''/srv/mmseqs-web'' =
        (?cfg\<lparr>Paths := (Paths ?cfg)
           \<lparr>Databases := resolvePath ''/srv/mmseqs-web'' (Databases (Paths ?cfg)),
            Results := resolvePath ''/srv/mmseqs-web'' (Results (Paths ?cfg)),
            Mmseqs := resolvePath ''/srv/mmseqs-web'' (Mmseqs (Paths ?cfg))\<rparr>\<rparr>, None)"
    by blast
  then have a: "ReadConfig (\<lambda>u. (?cfg, None)) () ''/srv/mmseqs-web'' =
     (defaultFileConfig\<lparr>Paths :=
        \<lparr>Databases = ''/srv/mmseqs-web/databases'', Results = ''/var/jobs'',
         Temporary = ''~tmp'', Mmseqs = ''/srv/mmseqs-web/mmseqs''\<rparr>\<rparr>, None)"
    by (simp add: resolvePath_def HasPrefix_def TrimLeft_def Clean_def defaultFileConfig_def)
  from path_fields_resolved
    [of "\<lambda>u. (defaultFileConfig, Some ''EOF'')" "()" defaultFileConfig _ "''EOF''" "''/srv/mmseqs-web''"]
    d(2)
  have b: "ReadConfig (\<lambda>u. (defaultFileConfig, Some ''EOF'')) () ''/srv/mmseqs-web'' =
     (defaultFileConfig,
      Some (ErrorString (''Fatal error for config file: '' @ ''EOF'' @ [CHR 0x0A])))"
    by blast
  note single = path_fields_resolved [of _ _ _ "''/opt/app''" _ "''~jobs''" "''jobs''",
      THEN conjunct2, THEN conjunct2, THEN conjunct2, THEN conjunct1, rule_format]
  have c: "resolvePath ''/opt/app'' ''~jobs'' = Join [''/opt/app'', ''jobs'']"
    using h(1) by (intro single) simp_all
  note plain = path_fields_resolved [of _ _ _ "''/opt/app''" _ "''/data/db''",
      THEN conjunct2, THEN conjunct2, THEN conjunct2, THEN conjunct2, THEN conjunct1, rule_format]
  have e: "resolvePath ''/opt/app'' ''/data/db'' = ''/data/db''"
    using h(2) by (rule plain)
  note joined = path_fields_resolved [of _ _ _ "''/opt/app''" _ "''jobs''",
      THEN conjunct2, THEN conjunct2, THEN conjunct2, THEN conjunct2, THEN conjunct2,
      THEN conjunct1, rule_format]
  have "Join [''/opt/app'', ''jobs''] = Clean (''/opt/app'' @ ''/'' @ ''jobs'')"
    using h(3) by (rule joined)
  then have f: "Join [''/opt/app'', ''jobs''] = ''/opt/app/jobs''"
    by (simp add: Clean_def)
  from a b c e f show ?thesis
    by blast
qed

text \<open>
  C10. A failing override can change the tree. On a \<open>ConfigRoot\<close> whose \<open>Auth\<close> is
  nil, the single override \<open>-server.auth.nosuchfield\<close> returns the error
  \<open>Path not found in config\<close> and leaves a tree that differs from the one before:
  \<open>Auth\<close> points to a zero-valued record. Whenever a call that starts at a nil pointer
  and has a segment left returns an error, the pointer is no longer nil; this is so too
  when it is the conversion of the value that fails, as on a pointer to a struct with one
  integer field.
\<close>

theorem failing_override_allocates:
  "(Auth (Server r) = None \<longrightarrow> \<not> isFlag value \<longrightarrow>
      ReadParameters (reflect_ConfigRoot r) [''-server.auth.nosuchfield'', value] =
        (reflect_ConfigRoot (r\<lparr>Server := (Server r)
            \<lparr>Auth := Some \<lparr>Username = [], Auth_Password = []\<rparr>\<rparr>\<rparr>),
         Some (ErrorString ''Path not found in config'')) \<and>
      reflect_ConfigRoot (r\<lparr>Server := (Server r)
            \<lparr>Auth := Some \<lparr>Username = [], Auth_Password = []\<rparr>\<rparr>\<rparr>) \<noteq> reflect_ConfigRoot r) \<and>
   (snd (setNodeValue ok (VPtr t None) (seg # rest) value) = Some e \<longrightarrow>
      fst (setNodeValue ok (VPtr t None) (seg # rest) value) \<noteq> VPtr t None) \<and>
   setNodeValue True (VPtr (TStruct [TField ''N'' ''n'' (TInt KInt)]) None) [''n''] ''x'' =
     (VPtr (TStruct [TField ''N'' ''n'' (TInt KInt)])
        (Some (VStruct [StructField ''N'' ''n'' (VInt KInt 0)])),
      Some (NumError ''ParseInt'' ''x'' ErrSyntax))"
proof (intro conjI impI)
  assume a: "Auth (Server r) = None" and v: "\<not> isFlag value"
  then show "ReadParameters (reflect_ConfigRoot r) [''-server.auth.nosuchfield'', value] =
        (reflect_ConfigRoot (r\<lparr>Server := (Server r)
            \<lparr>Auth := Some \<lparr>Username = [], Auth_Password = []\<rparr>\<rparr>\<rparr>),
         Some (ErrorString ''Path not found in config''))"
    by (simp add: ReadParameters_def setParameter_def reflect_defs isFlag_def HasPrefix_def
        TrimLeft_def)
  from a show "reflect_ConfigRoot (r\<lparr>Server := (Server r)
            \<lparr>Auth := Some \<lparr>Username = [], Auth_Password = []\<rparr>\<rparr>\<rparr>) \<noteq> reflect_ConfigRoot r"
    by (simp add: reflect_ConfigRoot_def reflect_ConfigServer_def)
next
  show "fst (setNodeValue ok (VPtr t None) (seg # rest) value) \<noteq> VPtr t None"
    by (cases "zero t") (simp_all split: option.splits prod.splits)
next
  show "setNodeValue True (VPtr (TStruct [TField ''N'' ''n'' (TInt KInt)]) None) [''n''] ''x'' =
     (VPtr (TStruct [TField ''N'' ''n'' (TInt KInt)])
        (Some (VStruct [StructField ''N'' ''n'' (VInt KInt 0)])),
      Some (NumError ''ParseInt'' ''x'' ErrSyntax))"
    by (simp add: ParseInt_def parseUint_def isDigit_def)
qed

theorem failing_override_allocates_witness:
  "ReadParameters (reflect_ConfigRoot defaultFileConfig) [''-server.auth.nosuchfield'', ''x''] =
     (reflect_ConfigRoot (defaultFileConfig\<lparr>Server := (Server defaultFileConfig)
         \<lparr>Auth := Some \<lparr>Username = [], Auth_Password = []\<rparr>\<rparr>\<rparr>),
      Some (ErrorString ''Path not found in config'')) \<and>
   reflect_ConfigRoot (defaultFileConfig\<lparr>Server := (Server defaultFileConfig)
         \<lparr>Auth := Some \<lparr>Username = [], Auth_Password = []\<rparr>\<rparr>\<rparr>) \<noteq>
     reflect_ConfigRoot defaultFileConfig \<and>
   fst (setNodeValue True (VPtr (TStruct [TField ''N'' ''n'' (TInt KInt)]) None) [''n''] ''x'') \<noteq>
     VPtr (TStruct [TField ''N'' ''n'' (TInt KInt)]) None"
proof -
  have a: "Auth (Server defaultFileConfig) = None"
    by (simp add: defaultFileConfig_def)
  have f: "\<not> isFlag ''x''"
    by (simp add: isFlag_def HasPrefix_def)
  note t = failing_override_allocates
    [of defaultFileConfig "''x''" True "TStruct [TField ''N'' ''n'' (TInt KInt)]" "''n''" "[]"
      "NumError ''ParseInt'' ''x'' ErrSyntax"]
  have "snd (setNodeValue True (VPtr (TStruct [TField ''N'' ''n'' (TInt KInt)]) None) [''n''] ''x'') =
      Some (NumError ''ParseInt'' ''x'' ErrSyntax)"
    using t by (simp only: snd_conv)
  with t a f show ?thesis
    by blast
qed

end
